theory Spec2Isabelle
  imports
    Complex_Main
    "HOL-Library.Monad_Syntax"
    "HOL-Library.Multiset"
    "HOL-Library.Sublist"
    "HOL-Library.List_Lexorder"
    "HOL-Library.Char_ord"
begin

section \<open>Numbers and arrays of the panel\<close>

text \<open>
  The panel of \<^verbatim>\<open>src/ExamplePanel.tsx\<close> computes with JavaScript numbers. They are modelled
  by \<^typ>\<open>real\<close>: arithmetic is exact, and a value that JavaScript would represent by
  \<^verbatim>\<open>undefined\<close>, \<^verbatim>\<open>NaN\<close> or an infinity has no counterpart. Every operation that can
  produce such a value therefore returns an \<^typ>\<open>'a option\<close>, with \<^term>\<open>None\<close> standing for
  "not a finite number": reading an array outside its bounds, dividing by zero, the square
  root of a negative number, and the minimum or maximum of no arguments.
  Array lengths and loop counters are natural numbers, array indices that the source
  computes by subtraction are integers.
\<close>

definition array_at :: "'a list \<Rightarrow> int \<Rightarrow> 'a option" where
  \<comment> \<open>\<^verbatim>\<open>xs[i]\<close>: \<^verbatim>\<open>undefined\<close> outside the array\<close>
  "array_at xs i = (if 0 \<le> i \<and> i < int (length xs) then Some (xs ! nat i) else None)"

definition num_div :: "real \<Rightarrow> real \<Rightarrow> real option" where
  \<comment> \<open>\<^verbatim>\<open>a / b\<close>: an infinity or \<^verbatim>\<open>NaN\<close> when \<^verbatim>\<open>b\<close> is zero\<close>
  "num_div a b = (if b = 0 then None else Some (a / b))"

definition Math_sqrt :: "real \<Rightarrow> real option" where
  \<comment> \<open>\<^verbatim>\<open>Math.sqrt(x)\<close>: \<^verbatim>\<open>NaN\<close> when \<^verbatim>\<open>x\<close> is negative\<close>
  "Math_sqrt x = (if x < 0 then None else Some (sqrt x))"

fun Math_min :: "real list \<Rightarrow> real option" where
  \<comment> \<open>\<^verbatim>\<open>Math.min(...xs)\<close>: \<^verbatim>\<open>Infinity\<close>, here \<^term>\<open>None\<close>, for no arguments\<close>
  "Math_min [] = None"
| "Math_min (x # xs) = Some (foldl min x xs)"

fun Math_max :: "real list \<Rightarrow> real option" where
  \<comment> \<open>\<^verbatim>\<open>Math.max(...xs)\<close>: \<^verbatim>\<open>-Infinity\<close>, here \<^term>\<open>None\<close>, for no arguments\<close>
  "Math_max [] = None"
| "Math_max (x # xs) = Some (foldl max x xs)"

text \<open>
  Where a claim depends on how a comparison of computed numbers comes out, the rounding of
  double precision arithmetic is part of the model. \<open>double_round\<close> is the rounding of
  IEEE 754 binary64, to the nearest double with ties to the even significand, with 53
  significant bits from the exponent \<open>-1022\<close> upwards and the fixed spacing of the
  subnormal numbers below; results beyond the largest double, which are infinities in
  the code, are outside the model.
\<close>

definition round_half_even :: "real \<Rightarrow> int" where
  "round_half_even y =
     (let f = \<lfloor>y\<rfloor>
      in if y - of_int f < 1 / 2 then f
         else if y - of_int f > 1 / 2 then f + 1
         else if even f then f else f + 1)"

definition double_ulp :: "real \<Rightarrow> real" where
  "double_ulp x = 2 powi (max \<lfloor>log 2 \<bar>x\<bar>\<rfloor> (- 1022) - 52)"

definition double_round :: "real \<Rightarrow> real" where
  "double_round x =
     (if x = 0 then 0 else of_int (round_half_even (x / double_ulp x)) * double_ulp x)"

text \<open>
  The arithmetic of the engine that runs the panel: \<open>fl\<close> takes the exact result of
  an addition, subtraction, multiplication or division to the number that the operation
  returns, \<open>pow2\<close> is \<^verbatim>\<open>x ** 2\<close> and \<open>sqrt_of\<close> is \<^verbatim>\<open>Math.sqrt(x)\<close> for
  \<open>x\<close> that is not negative. The language defines the four operations by IEEE 754 and
  leaves the other two to the implementation, within an approximation.
  \<open>double_arithmetic\<close> rounds all of them correctly; \<open>exact_arithmetic\<close> does not
  round.
\<close>

record arithmetic =
  fl :: "real \<Rightarrow> real"
  pow2 :: "real \<Rightarrow> real"
  sqrt_of :: "real \<Rightarrow> real"

definition exact_arithmetic :: arithmetic where
  "exact_arithmetic = \<lparr>fl = (\<lambda>x. x), pow2 = (\<lambda>x. x ^ 2), sqrt_of = sqrt\<rparr>"

definition double_arithmetic :: arithmetic where
  "double_arithmetic =
     \<lparr>fl = double_round, pow2 = (\<lambda>x. double_round (x ^ 2)),
      sqrt_of = (\<lambda>x. double_round (sqrt x))\<rparr>"

section \<open>Outlier removal\<close>

text \<open>
  \<^verbatim>\<open>removeOutliers\<close> (lines 57 to 69). The two \<^verbatim>\<open>reduce\<close> calls are left folds with the
  initial accumulator 0.
\<close>

definition removeOutliers :: "real list \<Rightarrow> real \<Rightarrow> real list option" where
  "removeOutliers frequencies threshold =
    (if length frequencies < 3 then Some frequencies
     else do {
       let sum = foldl (\<lambda>acc freq. acc + freq) 0 frequencies;
       mean \<leftarrow> num_div sum (real (length frequencies));
       variance \<leftarrow> num_div (foldl (\<lambda>acc freq. acc + (freq - mean) ^ 2) 0 frequencies)
                     (real (length frequencies));
       stdDev \<leftarrow> Math_sqrt variance;
       Some (filter (\<lambda>freq. \<bar>freq - mean\<bar> \<le> threshold * stdDev) frequencies)
     })"

text \<open>
  \<^verbatim>\<open>removeOutliers\<close> again, with the arithmetic of lines 62 to 68 written out.
  \<^verbatim>\<open>Math.sqrt\<close> of a negative number is \<^verbatim>\<open>NaN\<close>, here \<^term>\<open>None\<close>, and a comparison
  with \<^verbatim>\<open>NaN\<close> is false. The divisor is at least 3. With exact arithmetic this is
  \<open>removeOutliers\<close> above.
\<close>

definition removeOutliers_fl :: "arithmetic \<Rightarrow> real list \<Rightarrow> real \<Rightarrow> real list" where
  "removeOutliers_fl ar frequencies threshold =
    (if length frequencies < 3 then frequencies
     else
       (let sum = foldl (\<lambda>acc freq. fl ar (acc + freq)) 0 frequencies;
            mean = fl ar (sum / real (length frequencies));
            variance =
              fl ar (foldl (\<lambda>acc freq. fl ar (acc + pow2 ar (fl ar (freq - mean)))) 0
                        frequencies
                      / real (length frequencies));
            stdDev = (if variance < 0 then None else Some (sqrt_of ar variance))
        in filter (\<lambda>freq. case stdDev of
                            None \<Rightarrow> False
                          | Some sd \<Rightarrow> \<bar>fl ar (freq - mean)\<bar> \<le> fl ar (threshold * sd))
             frequencies))"

text \<open>Lines 111 and 112 of \<^verbatim>\<open>calculateFrequencyStats\<close>: the filtered rates and their count.\<close>

definition filter_and_count :: "arithmetic \<Rightarrow> real list \<Rightarrow> real \<Rightarrow> real list \<times> int" where
  "filter_and_count ar intervals outlierThreshold =
     (let filteredFrequencies = removeOutliers_fl ar intervals outlierThreshold;
          outlierCount = int (length intervals) - int (length filteredFrequencies)
      in (filteredFrequencies, outlierCount))"

section \<open>Frequency statistics\<close>

text \<open>The result type \<^verbatim>\<open>Omit<FrequencyStats, "topic">\<close> of \<^verbatim>\<open>calculateFrequencyStats\<close>.\<close>

record Stats =
  messageCount :: nat
  frequencies :: "real list"
  averageFrequency :: real
  medianFrequency :: real
  stdDeviation :: real
  minFrequency :: real
  maxFrequency :: real
  filteredFrequencies :: "real list"
  outlierCount :: int

text \<open>
  The \<^verbatim>\<open>for\<close> loop of lines 90 to 95, with the loop counter \<open>i\<close> and the array
  \<open>intervals\<close> that it extends by \<^verbatim>\<open>push\<close>.
\<close>

function intervals_loop :: "real list \<Rightarrow> nat \<Rightarrow> real list \<Rightarrow> real list option" where
  "intervals_loop sortedTimestamps i intervals =
    (if i < length sortedTimestamps then
       (case array_at sortedTimestamps (int i) of
          None \<Rightarrow> None
        | Some a \<Rightarrow>
          (case array_at sortedTimestamps (int i - 1) of
             None \<Rightarrow> None
           | Some b \<Rightarrow>
             (let interval = a - b in
              if interval > 0 then
                (case num_div 1 interval of
                   None \<Rightarrow> None
                 | Some rate \<Rightarrow> intervals_loop sortedTimestamps (i + 1) (intervals @ [rate]))
              else intervals_loop sortedTimestamps (i + 1) intervals)))
     else Some intervals)"
  by pat_completeness auto
termination
  by (relation "measure (\<lambda>(sortedTimestamps, i, intervals). length sortedTimestamps - i)") auto

declare intervals_loop.simps [simp del]

text \<open>
  Lines 87 to 95 of \<^verbatim>\<open>calculateFrequencyStats\<close>: the numeric ascending sort of a copy of
  the timestamps, then the loop. This is the spec's operation \<open>computeRates\<close>.
\<close>

definition computeRates :: "real list \<Rightarrow> real list option" where
  "computeRates timestamps =
    (let sortedTimestamps = sort timestamps in intervals_loop sortedTimestamps 1 [])"

text \<open>The record that the three early returns of \<^verbatim>\<open>calculateFrequencyStats\<close> build.\<close>

definition zero_stats :: "nat \<Rightarrow> real list \<Rightarrow> int \<Rightarrow> Stats" where
  "zero_stats timestampsLength intervals outliers =
    \<lparr>messageCount = timestampsLength, frequencies = intervals, averageFrequency = 0,
     medianFrequency = 0, stdDeviation = 0, minFrequency = 0, maxFrequency = 0,
     filteredFrequencies = [], outlierCount = outliers\<rparr>"

text \<open>
  Lines 114 to 152 of \<^verbatim>\<open>calculateFrequencyStats\<close>: the summary of the filtered rates.
  This is the spec's operation \<open>summarize\<close>; \<open>timestampsLength\<close> is \<^verbatim>\<open>timestamps.length\<close>.
\<close>

definition summarize :: "nat \<Rightarrow> real list \<Rightarrow> real list \<Rightarrow> int \<Rightarrow> Stats option" where
  "summarize timestampsLength intervals filteredFrequencies' outlierCount' =
    (if length filteredFrequencies' = 0
     then Some (zero_stats timestampsLength intervals outlierCount')
     else do {
       let sum = foldl (\<lambda>acc freq. acc + freq) 0 filteredFrequencies';
       average \<leftarrow> num_div sum (real (length filteredFrequencies'));
       let sortedFiltered = sort filteredFrequencies';
       let medianIndex = length sortedFiltered div 2;
       median \<leftarrow>
         (if length sortedFiltered mod 2 = 0 then do {
            lower \<leftarrow> array_at sortedFiltered (int medianIndex - 1);
            upper \<leftarrow> array_at sortedFiltered (int medianIndex);
            num_div (lower + upper) 2
          } else array_at sortedFiltered (int medianIndex));
       variance \<leftarrow> num_div (foldl (\<lambda>acc freq. acc + (freq - average) ^ 2) 0 filteredFrequencies')
                     (real (length filteredFrequencies'));
       stdDev \<leftarrow> Math_sqrt variance;
       minimum \<leftarrow> Math_min filteredFrequencies';
       maximum \<leftarrow> Math_max filteredFrequencies';
       Some \<lparr>messageCount = timestampsLength, frequencies = intervals, averageFrequency = average,
             medianFrequency = median, stdDeviation = stdDev, minFrequency = minimum,
             maxFrequency = maximum, filteredFrequencies = filteredFrequencies',
             outlierCount = outlierCount'\<rparr>
     })"

text \<open>\<^verbatim>\<open>calculateFrequencyStats\<close> (lines 71 to 155); \<open>outlierThreshold\<close> is the panel's state.\<close>

definition calculateFrequencyStats :: "real \<Rightarrow> real list \<Rightarrow> Stats option" where
  "calculateFrequencyStats outlierThreshold timestamps =
    (if length timestamps < 2 then Some (zero_stats (length timestamps) [] 0)
     else do {
       intervals \<leftarrow> computeRates timestamps;
       if length intervals = 0 then Some (zero_stats (length timestamps) [] 0)
       else do {
         filteredFrequencies \<leftarrow> removeOutliers intervals outlierThreshold;
         let outlierCount = int (length intervals) - int (length filteredFrequencies);
         summarize (length timestamps) intervals filteredFrequencies outlierCount
       }
     })"

section \<open>Plain objects\<close>

text \<open>
  \<^verbatim>\<open>topicTimestamps\<close> and \<^verbatim>\<open>statsCache.current\<close> are plain objects, created by \<^verbatim>\<open>{}\<close>
  and by a spread copy, and read with the topic name as the property name. A read that
  finds no property of the object itself continues in \<^verbatim>\<open>Object.prototype\<close>. Its members
  are functions, of which the code can observe only the \<^verbatim>\<open>length\<close>, and the accessor
  \<^verbatim>\<open>__proto__\<close>, which returns the prototype object. A plain object is modelled by the
  map of its own properties.
\<close>

datatype inherited = Function nat | Prototype_object

definition Object_prototype :: "string \<Rightarrow> inherited option" where
  "Object_prototype name =
     (if name \<in> set [''constructor'', ''hasOwnProperty'', ''isPrototypeOf'',
                      ''propertyIsEnumerable'', ''__lookupGetter__'', ''__lookupSetter__'']
      then Some (Function 1)
      else if name \<in> set [''toString'', ''toLocaleString'', ''valueOf'']
      then Some (Function 0)
      else if name \<in> set [''__defineGetter__'', ''__defineSetter__'']
      then Some (Function 2)
      else if name = ''__proto__'' then Some Prototype_object
      else None)"

datatype 'a property = Own 'a | Inherited inherited | Undefined

definition object_get :: "(string \<rightharpoonup> 'a) \<Rightarrow> string \<Rightarrow> 'a property" where
  "object_get obj name =
     (case obj name of
        Some v \<Rightarrow> Own v
      | None \<Rightarrow> (case Object_prototype name of Some i \<Rightarrow> Inherited i | None \<Rightarrow> Undefined))"

section \<open>Timestamp sets and arrays of timestamps\<close>

text \<open>
  A \<^verbatim>\<open>Set<number>\<close> keeps its elements in insertion order and holds each value once.
  It is modelled by the list of its elements in insertion order; \<^verbatim>\<open>size\<close> is the
  length of that list.
\<close>

type_synonym TimestampSet = "real list"
type_synonym TopicTimestamps = "string \<rightharpoonup> TimestampSet"

definition Set_add :: "real \<Rightarrow> TimestampSet \<Rightarrow> TimestampSet" where
  "Set_add x s = (if x \<in> set s then s else s @ [x])"

definition new_Set :: "real list \<Rightarrow> TimestampSet" where
  "new_Set xs = foldl (\<lambda>s x. Set_add x s) [] xs"

definition Set_elements :: "TimestampSet \<Rightarrow> real list" where
  "Set_elements s = s"

text \<open>
  \<^verbatim>\<open>Array.from(timestamps || [])\<close> for what a read of \<^verbatim>\<open>topicTimestamps\<close> returns. An
  array element is a number or \<^verbatim>\<open>undefined\<close>, here \<^term>\<open>None\<close>: a function is read as
  an array-like object with as many undefined elements as its \<^verbatim>\<open>length\<close>, and the
  prototype object has no \<^verbatim>\<open>length\<close>.
\<close>

definition Array_from :: "TimestampSet property \<Rightarrow> real option list" where
  "Array_from timestamps =
     (case timestamps of
        Own s \<Rightarrow> map Some (Set_elements s)
      | Inherited (Function n) \<Rightarrow> replicate n None
      | Inherited Prototype_object \<Rightarrow> []
      | Undefined \<Rightarrow> [])"

definition numbers :: "real option list \<Rightarrow> real list" where
  "numbers xs = List.map_filter (\<lambda>x. x) xs"

definition undefineds :: "real option list \<Rightarrow> real option list" where
  "undefineds xs = filter (\<lambda>x. x = None) xs"

text \<open>
  \<^verbatim>\<open>sort()\<close> without a comparator orders the numbers by their string conversions,
  compared lexicographically by code unit, and is stable; the conversion of a number to a
  string is a parameter \<open>toString\<close>. \<^verbatim>\<open>sort((a, b) => a - b)\<close> and
  \<^verbatim>\<open>sort((a, b) => b - a)\<close> are the stable numeric sorts. Every sort moves the undefined
  elements to the end.
\<close>

definition Array_sort_default :: "(real \<Rightarrow> string) \<Rightarrow> real option list \<Rightarrow> real option list" where
  "Array_sort_default toString xs = map Some (sort_key toString (numbers xs)) @ undefineds xs"

definition Array_sort_ascending :: "real option list \<Rightarrow> real option list" where
  "Array_sort_ascending xs = map Some (sort (numbers xs)) @ undefineds xs"

definition Array_sort_descending :: "real list \<Rightarrow> real list" where
  "Array_sort_descending xs = sort_key uminus xs"

text \<open>
  The values of \<^verbatim>\<open>lastUpdate\<close>: a number, \<^verbatim>\<open>NaN\<close> or \<^verbatim>\<open>-Infinity\<close>. \<^verbatim>\<open>===\<close>
  is false when an operand is \<^verbatim>\<open>NaN\<close>. \<^verbatim>\<open>Math.max\<close> of arguments is \<^verbatim>\<open>NaN\<close>
  when an argument is undefined and \<^verbatim>\<open>-Infinity\<close> without arguments.
\<close>

datatype number = Num real | NaN | NegInfinity

definition strict_equal :: "number \<Rightarrow> number \<Rightarrow> bool" where
  "strict_equal a b = (a \<noteq> NaN \<and> a = b)"

definition Math_max_spread :: "real option list \<Rightarrow> number" where
  "Math_max_spread xs =
     (if None \<in> set xs then NaN
      else case Math_max (numbers xs) of None \<Rightarrow> NegInfinity | Some m \<Rightarrow> Num m)"

text \<open>
  \<^verbatim>\<open>calculateFrequencyStats\<close> for an array that may hold undefined elements. A read
  outside the array is undefined as well, a difference with an undefined operand is
  \<^verbatim>\<open>NaN\<close>, here \<^term>\<open>None\<close>, and \<^verbatim>\<open>NaN > 0\<close> is false. On an array of numbers
  this is \<open>calculateFrequencyStats\<close> above.
\<close>

definition element :: "real option list \<Rightarrow> int \<Rightarrow> real option" where
  "element xs i = (if 0 \<le> i \<and> i < int (length xs) then xs ! nat i else None)"

definition number_minus :: "real option \<Rightarrow> real option \<Rightarrow> real option" where
  "number_minus a b = (case (a, b) of (Some x, Some y) \<Rightarrow> Some (x - y) | _ \<Rightarrow> None)"

function intervals_loop_elements :: "real option list \<Rightarrow> nat \<Rightarrow> real list \<Rightarrow> real list" where
  "intervals_loop_elements sortedTimestamps i intervals =
    (if i < length sortedTimestamps then
       (case number_minus (element sortedTimestamps (int i))
               (element sortedTimestamps (int i - 1)) of
          None \<Rightarrow> intervals_loop_elements sortedTimestamps (i + 1) intervals
        | Some interval \<Rightarrow>
            if interval > 0
            then intervals_loop_elements sortedTimestamps (i + 1) (intervals @ [1 / interval])
            else intervals_loop_elements sortedTimestamps (i + 1) intervals)
     else intervals)"
  by pat_completeness auto
termination
  by (relation "measure (\<lambda>(sortedTimestamps, i, intervals). length sortedTimestamps - i)") auto

declare intervals_loop_elements.simps [simp del]

definition calculateFrequencyStats_elements :: "real \<Rightarrow> real option list \<Rightarrow> Stats option" where
  "calculateFrequencyStats_elements outlierThreshold timestamps =
    (if length timestamps < 2 then Some (zero_stats (length timestamps) [] 0)
     else
       (let sortedTimestamps = Array_sort_ascending timestamps;
            intervals = intervals_loop_elements sortedTimestamps 1 []
        in if length intervals = 0 then Some (zero_stats (length timestamps) [] 0)
           else do {
             filteredFrequencies \<leftarrow> removeOutliers intervals outlierThreshold;
             let outlierCount = int (length intervals) - int (length filteredFrequencies);
             summarize (length timestamps) intervals filteredFrequencies outlierCount
           }))"

section \<open>The statistics cache\<close>

text \<open>
  A statistics object is created at line 168 and is identified by its address, the
  number of objects created before it. An address and the fields stand for the object.
\<close>

record FrequencyStats = Stats +
  topic :: string

record CachedEntry =
  stats :: "nat \<times> FrequencyStats"
  lastUpdate :: number
  timestampCount :: nat

text \<open>
  \<^verbatim>\<open>statsCache.current\<close>: its own properties, and the entry that an assignment to the
  property \<^verbatim>\<open>__proto__\<close> has installed as its prototype, if any. \<open>cache_get\<close> is the
  read of line 163 when it returns an entry; every other value that the read can return
  (undefined, a member of \<^verbatim>\<open>Object.prototype\<close>, a field of an entry installed as
  prototype) is falsy or has no \<^verbatim>\<open>lastUpdate\<close> and fails the test of line 164.
  \<open>cache_set\<close> is the assignment of line 173 and \<open>cache_delete\<close> the \<^verbatim>\<open>delete\<close> of
  line 300, which removes an own property only.
\<close>

record StatsCache =
  own :: "string \<rightharpoonup> CachedEntry"
  proto :: "CachedEntry option"

definition cache_get :: "StatsCache \<Rightarrow> string \<Rightarrow> CachedEntry option" where
  "cache_get cache name =
     (case own cache name of
        Some entry \<Rightarrow> Some entry
      | None \<Rightarrow> if name = ''__proto__'' then proto cache else None)"

definition cache_set :: "StatsCache \<Rightarrow> string \<Rightarrow> CachedEntry \<Rightarrow> StatsCache" where
  "cache_set cache name entry =
     (if name = ''__proto__'' \<and> own cache name = None then cache\<lparr>proto := Some entry\<rparr>
      else cache\<lparr>own := (own cache)(name \<mapsto> entry)\<rparr>)"

definition cache_delete :: "StatsCache \<Rightarrow> string \<Rightarrow> StatsCache" where
  "cache_delete cache name = cache\<lparr>own := (own cache)(name := None)\<rparr>"

definition MAX_TIMESTAMPS_PER_TOPIC :: nat where
  "MAX_TIMESTAMPS_PER_TOPIC = 1000"

text \<open>
  \<^verbatim>\<open>getCachedStats\<close> (lines 157 to 182). It reads the panel's timestamp sets and
  threshold; \<^verbatim>\<open>statsCache.current\<close> and the number of statistics objects created so
  far are passed in and returned.
\<close>

definition getCachedStats ::
  "(real \<Rightarrow> string) \<Rightarrow> real \<Rightarrow> TopicTimestamps \<Rightarrow> StatsCache \<times> nat \<Rightarrow> string
     \<Rightarrow> ((nat \<times> FrequencyStats) \<times> StatsCache \<times> nat) option" where
  "getCachedStats toString outlierThreshold topicTimestamps heap topic' =
    (let statsCache' = fst heap;
         fresh = snd heap;
         timestamps = object_get topicTimestamps topic';
         timestampCount' = (case timestamps of Own s \<Rightarrow> length s | _ \<Rightarrow> 0);
         lastUpdate' = (case timestamps of
                          Undefined \<Rightarrow> Num 0
                        | _ \<Rightarrow> Math_max_spread (Array_from timestamps));
         cached = cache_get statsCache' topic'
     in case (case cached of
                None \<Rightarrow> None
              | Some c \<Rightarrow>
                  if strict_equal (lastUpdate c) lastUpdate' \<and> timestampCount c = timestampCount'
                  then Some (stats c) else None) of
          Some hit \<Rightarrow> Some (hit, heap)
        | None \<Rightarrow> do {
            body \<leftarrow> calculateFrequencyStats_elements outlierThreshold
                      (Array_sort_default toString (Array_from timestamps));
            let stats' = (fresh, Stats.extend body (FrequencyStats.fields topic'));
            Some (stats',
                  cache_set statsCache' topic'
                    \<lparr>stats = stats', lastUpdate = lastUpdate', timestampCount = timestampCount'\<rparr>,
                  fresh + 1)
          })"

section \<open>The render handler\<close>

text \<open>
  The \<^verbatim>\<open>onRender\<close> handler (lines 274 to 308). The callback of \<^verbatim>\<open>forEach\<close> closes over
  the copy \<^verbatim>\<open>updated\<close> of the timestamp sets, the flag \<^verbatim>\<open>hasChanges\<close> and
  \<^verbatim>\<open>statsCache.current\<close>. The timestamp of line 285 is computed in double precision:
  the literal \<^verbatim>\<open>1e-9\<close>, the product and the sum are rounded by \<open>rnd\<close>. Where
  \<^verbatim>\<open>updated[topic]\<close> is a member of \<^verbatim>\<open>Object.prototype\<close>, line 292 calls its
  undefined property \<^verbatim>\<open>add\<close> and throws a \<^verbatim>\<open>TypeError\<close>, which ends the handler and
  the panel.
\<close>

record Time =
  sec :: int
  nsec :: int

record MessageEvent =
  message_topic :: string
  receiveTime :: Time

record Closure =
  updated :: TopicTimestamps
  hasChanges :: bool
  statsCache :: StatsCache

datatype error = TypeError

definition timestamp_of :: "(real \<Rightarrow> real) \<Rightarrow> MessageEvent \<Rightarrow> real" where
  "timestamp_of rnd messageEvent =
     rnd (real_of_int (sec (receiveTime messageEvent))
            + rnd (real_of_int (nsec (receiveTime messageEvent)) * rnd (1 / 10 ^ 9)))"

definition forEach_callback :: "(real \<Rightarrow> real) \<Rightarrow> Closure \<Rightarrow> MessageEvent \<Rightarrow> error + Closure" where
  "forEach_callback rnd c messageEvent =
    (let topic' = message_topic messageEvent;
         timestamp = timestamp_of rnd messageEvent;
         updated1 = (case object_get (updated c) topic' of
                       Undefined \<Rightarrow> (updated c)(topic' \<mapsto> new_Set [])
                     | _ \<Rightarrow> updated c)
     in case object_get updated1 topic' of
          Own set0 \<Rightarrow>
            (let prevSize = length set0;
                 set1 = Set_add timestamp set0;
                 updated2 = updated1(topic' \<mapsto> set1)
             in if length set1 > prevSize then
                  (if length set1 > MAX_TIMESTAMPS_PER_TOPIC then
                     (let sortedTimestamps = Array_sort_descending (Set_elements set1)
                      in Inr (c\<lparr>updated := updated2(topic' \<mapsto>
                                   new_Set (take MAX_TIMESTAMPS_PER_TOPIC sortedTimestamps)),
                                hasChanges := True,
                                statsCache := cache_delete (statsCache c) topic'\<rparr>))
                   else Inr (c\<lparr>updated := updated2, hasChanges := True\<rparr>))
                else Inr (c\<lparr>updated := updated2\<rparr>))
        | _ \<Rightarrow> Inl TypeError)"

fun forEach :: "(real \<Rightarrow> real) \<Rightarrow> Closure \<Rightarrow> MessageEvent list \<Rightarrow> error + Closure" where
  "forEach rnd c [] = Inr c"
| "forEach rnd c (messageEvent # rest) =
     (case forEach_callback rnd c messageEvent of
        Inl e \<Rightarrow> Inl e
      | Inr c' \<Rightarrow> forEach rnd c' rest)"

definition onRender ::
  "(real \<Rightarrow> real) \<Rightarrow> TopicTimestamps \<times> StatsCache \<Rightarrow> MessageEvent list option
     \<Rightarrow> error + TopicTimestamps \<times> StatsCache" where
  "onRender rnd state currentFrame =
    (case currentFrame of
       None \<Rightarrow> Inr state
     | Some frame \<Rightarrow>
         (let prev = fst state
          in case forEach rnd \<lparr>updated = prev, hasChanges = False, statsCache = snd state\<rparr> frame of
               Inl e \<Rightarrow> Inl e
             | Inr c \<Rightarrow> Inr (if hasChanges c then updated c else prev, statsCache c)))"

section \<open>Reference definitions\<close>

text \<open>
  The operations as the specification words them, without loops, folds or partial
  operations. The theorems below compare the functions of the panel with them.
\<close>

definition population_mean :: "real list \<Rightarrow> real" where
  "population_mean xs = sum_list xs / real (length xs)"

definition population_variance :: "real list \<Rightarrow> real" where
  "population_variance xs =
     sum_list (map (\<lambda>x. (x - population_mean xs) ^ 2) xs) / real (length xs)"

definition population_stdDev :: "real list \<Rightarrow> real" where
  "population_stdDev xs = sqrt (population_variance xs)"

definition filterOutliers_spec :: "real list \<Rightarrow> real \<Rightarrow> real list" where
  "filterOutliers_spec rates thresholdSigma =
     filter (\<lambda>r. \<bar>r - population_mean rates\<bar> \<le> thresholdSigma * population_stdDev rates) rates"

definition computeRates_spec :: "real list \<Rightarrow> real list" where
  "computeRates_spec timestamps =
     (let t = sort timestamps
      in map (\<lambda>delta. 1 / delta)
           (filter (\<lambda>delta. delta > 0) (map (\<lambda>i. t ! i - t ! (i - 1)) [1..<length t])))"

definition median_spec :: "real list \<Rightarrow> real" where
  "median_spec xs =
     (let s = sort xs; n = length xs
      in if even n then (s ! (n div 2 - 1) + s ! (n div 2)) / 2 else s ! (n div 2))"

definition summary_spec :: "nat \<Rightarrow> real list \<Rightarrow> real list \<Rightarrow> int \<Rightarrow> Stats" where
  "summary_spec n raw filtered outliers =
     \<lparr>messageCount = n, frequencies = raw, averageFrequency = population_mean filtered,
      medianFrequency = median_spec filtered, stdDeviation = population_stdDev filtered,
      minFrequency = Min (set filtered), maxFrequency = Max (set filtered),
      filteredFrequencies = filtered, outlierCount = outliers\<rparr>"

definition filtered_spec :: "real \<Rightarrow> real list \<Rightarrow> real list" where
  "filtered_spec thresholdSigma rates =
     (if length rates < 3 then rates else filterOutliers_spec rates thresholdSigma)"

definition stats_spec :: "real \<Rightarrow> real list \<Rightarrow> Stats" where
  "stats_spec thresholdSigma timestamps =
     (let raw = computeRates_spec timestamps;
          filtered = filtered_spec thresholdSigma raw;
          outliers = int (length raw) - int (length filtered)
      in if filtered = [] then zero_stats (length timestamps) raw outliers
         else summary_spec (length timestamps) raw filtered outliers)"

text \<open>
  The same in the arithmetic of the engine: the sum adds the rates one by one in sequence
  order, and every operation is the engine's.
\<close>

primrec rounded_sum_backwards :: "arithmetic \<Rightarrow> real list \<Rightarrow> real" where
  "rounded_sum_backwards ar [] = 0"
| "rounded_sum_backwards ar (x # xs) = fl ar (rounded_sum_backwards ar xs + x)"

definition rounded_sum :: "arithmetic \<Rightarrow> real list \<Rightarrow> real" where
  "rounded_sum ar xs = rounded_sum_backwards ar (rev xs)"

definition rounded_mean :: "arithmetic \<Rightarrow> real list \<Rightarrow> real" where
  "rounded_mean ar xs = fl ar (rounded_sum ar xs / real (length xs))"

definition rounded_variance :: "arithmetic \<Rightarrow> real list \<Rightarrow> real" where
  "rounded_variance ar xs =
     fl ar (rounded_sum ar (map (\<lambda>x. pow2 ar (fl ar (x - rounded_mean ar xs))) xs)
               / real (length xs))"

definition rounded_stdDev :: "arithmetic \<Rightarrow> real list \<Rightarrow> real" where
  "rounded_stdDev ar xs = sqrt_of ar (rounded_variance ar xs)"

definition filterOutliers_rounded :: "arithmetic \<Rightarrow> real list \<Rightarrow> real \<Rightarrow> real list" where
  "filterOutliers_rounded ar rates thresholdSigma =
     filter (\<lambda>r. 0 \<le> rounded_variance ar rates \<and>
                \<bar>fl ar (r - rounded_mean ar rates)\<bar>
                  \<le> fl ar (thresholdSigma * rounded_stdDev ar rates)) rates"

text \<open>The double nearest to 0.1, the rate of messages that arrive 10 seconds apart.\<close>

definition one_tenth :: real where
  "one_tenth = 3602879701896397 / 36028797018963968"

text \<open>
  The retention cap as a property of one topic's timestamp set: a set is held only under a
  name that \<^verbatim>\<open>Object.prototype\<close> does not have, and holds at most 1000 distinct
  timestamps. \<open>run\<close> applies the handler to the frames of successive render states.
\<close>

definition within_cap :: "TopicTimestamps \<Rightarrow> string \<Rightarrow> bool" where
  "within_cap topicTimestamps name =
     (case topicTimestamps name of
        None \<Rightarrow> True
      | Some s \<Rightarrow> Object_prototype name = None \<and> distinct s \<and>
                  length s \<le> MAX_TIMESTAMPS_PER_TOPIC)"

fun run ::
  "(real \<Rightarrow> real) \<Rightarrow> TopicTimestamps \<times> StatsCache \<Rightarrow> MessageEvent list option list
     \<Rightarrow> error + TopicTimestamps \<times> StatsCache" where
  "run rnd state [] = Inr state"
| "run rnd state (currentFrame # frames) =
     (case onRender rnd state currentFrame of
        Inl e \<Rightarrow> Inl e
      | Inr state' \<Rightarrow> run rnd state' frames)"

section \<open>The panel's functions compute the reference definitions\<close>

lemma foldl_plus_sum_list:
  "foldl (\<lambda>acc x. acc + f x) a xs = a + sum_list (map f xs)" for a :: real
  by (induction xs arbitrary: a) simp_all

lemma reduce_sum: "foldl (\<lambda>acc freq. acc + freq) 0 xs = sum_list xs" for xs :: "real list"
  using foldl_plus_sum_list [of "\<lambda>x. x" 0 xs] by simp

lemma reduce_squares:
  "foldl (\<lambda>acc freq. acc + (freq - m) ^ 2) 0 xs = sum_list (map (\<lambda>x. (x - m) ^ 2) xs)"
  for xs :: "real list"
  using foldl_plus_sum_list [of "\<lambda>x. (x - m) ^ 2" 0 xs] by simp

lemma population_variance_nonneg: "0 \<le> population_variance xs"
  unfolding population_variance_def
  by (intro divide_nonneg_nonneg sum_list_nonneg) auto

lemma removeOutliers_long:
  assumes "3 \<le> length rates"
  shows "removeOutliers rates threshold = Some (filterOutliers_spec rates threshold)"
proof -
  have len: "real (length rates) \<noteq> 0" using assms by auto
  have m: "num_div (foldl (\<lambda>acc freq. acc + freq) 0 rates) (real (length rates))
           = Some (population_mean rates)"
    using len by (simp add: num_div_def reduce_sum population_mean_def)
  have v: "num_div (foldl (\<lambda>acc freq. acc + (freq - population_mean rates) ^ 2) 0 rates)
             (real (length rates)) = Some (population_variance rates)"
    using len by (simp add: num_div_def reduce_squares population_variance_def)
  have s: "Math_sqrt (population_variance rates) = Some (population_stdDev rates)"
    using population_variance_nonneg [of rates]
    by (simp add: Math_sqrt_def population_stdDev_def)
  show ?thesis
    using assms by (simp add: removeOutliers_def m v s filterOutliers_spec_def)
qed

lemma removeOutliers_short:
  "length rates < 3 \<Longrightarrow> removeOutliers rates threshold = Some rates"
  by (simp add: removeOutliers_def)

lemma removeOutliers_total:
  "removeOutliers rates threshold =
     Some (if length rates < 3 then rates else filterOutliers_spec rates threshold)"
  using removeOutliers_long [of rates threshold] removeOutliers_short [of rates threshold]
  by (cases "length rates < 3") simp_all

lemma intervals_loop_eq:
  "0 < i \<Longrightarrow> intervals_loop ts i acc =
     Some (acc @ map (\<lambda>delta. 1 / delta)
       (filter (\<lambda>delta. delta > 0) (map (\<lambda>j. ts ! j - ts ! (j - 1)) [i..<length ts])))"
proof (induction ts i acc rule: intervals_loop.induct)
  case (1 ts i acc)
  show ?case
  proof (cases "i < length ts")
    case False
    then show ?thesis by (subst intervals_loop.simps) simp
  next
    case True
    have a: "array_at ts (int i) = Some (ts ! i)" using True by (simp add: array_at_def)
    have b: "array_at ts (int i - 1) = Some (ts ! (i - 1))"
      using True "1.prems" by (simp add: array_at_def nat_diff_distrib')
    have up: "[i..<length ts] = i # [Suc i..<length ts]" using True by (simp add: upt_conv_Cons)
    show ?thesis
    proof (cases "ts ! i - ts ! (i - 1) > 0")
      case pos: True
      have d: "num_div 1 (ts ! i - ts ! (i - 1)) = Some (1 / (ts ! i - ts ! (i - 1)))"
        using pos by (simp add: num_div_def)
      have "intervals_loop ts i acc = intervals_loop ts (i + 1) (acc @ [1 / (ts ! i - ts ! (i - 1))])"
        using True pos by (subst intervals_loop.simps) (simp add: a b num_div_def)
      also have "\<dots> = Some ((acc @ [1 / (ts ! i - ts ! (i - 1))]) @ map (\<lambda>delta. 1 / delta)
         (filter (\<lambda>delta. delta > 0) (map (\<lambda>j. ts ! j - ts ! (j - 1)) [i + 1..<length ts])))"
        using "1.IH"(1) [OF True a b refl pos d] by simp
      finally show ?thesis using pos by (simp add: up)
    next
      case npos: False
      have "intervals_loop ts i acc = intervals_loop ts (i + 1) acc"
        using True npos by (subst intervals_loop.simps) (simp add: a b)
      also have "\<dots> = Some (acc @ map (\<lambda>delta. 1 / delta)
         (filter (\<lambda>delta. delta > 0) (map (\<lambda>j. ts ! j - ts ! (j - 1)) [i + 1..<length ts])))"
        using "1.IH"(2) [OF True a b refl npos] by simp
      finally show ?thesis using npos by (simp add: up)
    qed
  qed
qed

lemma computeRates_eq: "computeRates ts = Some (computeRates_spec ts)"
  by (simp add: computeRates_def computeRates_spec_def intervals_loop_eq Let_def)

lemma Math_min_eq: "xs \<noteq> [] \<Longrightarrow> Math_min xs = Some (Min (set xs))"
proof (cases xs)
  case (Cons a as)
  have "foldl min a as = fold min as a"
    by (simp add: foldl_conv_fold min.commute)
  then show ?thesis using Cons Min.set_eq_fold [of a as] by simp
qed simp

lemma Math_max_eq: "xs \<noteq> [] \<Longrightarrow> Math_max xs = Some (Max (set xs))"
proof (cases xs)
  case (Cons a as)
  have "foldl max a as = fold max as a"
    by (simp add: foldl_conv_fold max.commute)
  then show ?thesis using Cons Max.set_eq_fold [of a as] by simp
qed simp

lemma median_read:
  assumes "xs \<noteq> []"
  shows "(if length (sort xs) mod 2 = 0 then do {
            lower \<leftarrow> array_at (sort xs) (int (length (sort xs) div 2) - 1);
            upper \<leftarrow> array_at (sort xs) (int (length (sort xs) div 2));
            num_div (lower + upper) 2
          } else array_at (sort xs) (int (length (sort xs) div 2))) = Some (median_spec xs)"
proof -
  have pos: "0 < length xs" using assms by simp
  have hi: "array_at (sort xs) (int (length xs div 2)) = Some (sort xs ! (length xs div 2))"
    using pos by (simp add: array_at_def)
  show ?thesis
  proof (cases "even (length xs)")
    case True
    then have two: "2 \<le> length xs" using pos by presburger
    then have one: "1 \<le> length xs div 2" by simp
    have lo: "array_at (sort xs) (int (length xs div 2) - 1) = Some (sort xs ! (length xs div 2 - 1))"
      using one pos by (simp add: array_at_def nat_diff_distrib')
    show ?thesis using True by (simp add: lo hi num_div_def median_spec_def even_iff_mod_2_eq_zero Let_def)
  next
    case False
    then show ?thesis by (simp add: hi median_spec_def even_iff_mod_2_eq_zero Let_def)
  qed
qed

lemma summarize_nonempty:
  assumes "filtered \<noteq> []"
  shows "summarize n raw filtered outliers = Some (summary_spec n raw filtered outliers)"
proof -
  have len: "real (length filtered) \<noteq> 0" "length filtered \<noteq> 0" using assms by auto
  have m: "num_div (foldl (\<lambda>acc freq. acc + freq) 0 filtered) (real (length filtered))
           = Some (population_mean filtered)"
    using len by (simp add: num_div_def reduce_sum population_mean_def)
  have v: "num_div (foldl (\<lambda>acc freq. acc + (freq - population_mean filtered) ^ 2) 0 filtered)
             (real (length filtered)) = Some (population_variance filtered)"
    using len by (simp add: num_div_def reduce_squares population_variance_def)
  have s: "Math_sqrt (population_variance filtered) = Some (population_stdDev filtered)"
    using population_variance_nonneg [of filtered]
    by (simp add: Math_sqrt_def population_stdDev_def)
  show ?thesis
    unfolding summarize_def Let_def
    using len(2)
    by (simp only: if_False m v s median_read [OF assms] Math_min_eq [OF assms]
          Math_max_eq [OF assms] bind.bind_lunit summary_spec_def)
qed

lemma summarize_empty: "summarize n raw [] outliers = Some (zero_stats n raw outliers)"
  by (simp add: summarize_def)

lemma computeRates_spec_short: "length ts < 2 \<Longrightarrow> computeRates_spec ts = []"
  by (simp add: computeRates_spec_def)

lemma calculateFrequencyStats_eq:
  "calculateFrequencyStats th ts = Some (stats_spec th ts)"
proof (cases "length ts < 2")
  case True
  then show ?thesis
    by (simp add: calculateFrequencyStats_def stats_spec_def computeRates_spec_short filtered_spec_def)
next
  case False
  show ?thesis
  proof (cases "computeRates_spec ts = []")
    case True
    then show ?thesis using False
      by (simp add: calculateFrequencyStats_def stats_spec_def computeRates_eq filtered_spec_def)
  next
    case ne: False
    have ro: "removeOutliers (computeRates_spec ts) th = Some (filtered_spec th (computeRates_spec ts))"
      by (simp add: removeOutliers_total filtered_spec_def)
    show ?thesis
    proof (cases "filtered_spec th (computeRates_spec ts) = []")
      case True
      then show ?thesis using False ne
        by (simp add: calculateFrequencyStats_def stats_spec_def computeRates_eq ro summarize_empty
              Let_def)
    next
      case f: False
      then show ?thesis using False ne
        by (simp add: calculateFrequencyStats_def stats_spec_def computeRates_eq ro
              summarize_nonempty Let_def)
    qed
  qed
qed

lemma frequencies_stats_spec: "frequencies (stats_spec th ts) = computeRates_spec ts"
  by (simp add: stats_spec_def Let_def zero_stats_def summary_spec_def)

lemma filteredFrequencies_stats_spec:
  "filteredFrequencies (stats_spec th ts) = filtered_spec th (computeRates_spec ts)"
  by (simp add: stats_spec_def Let_def zero_stats_def summary_spec_def)

lemma outlierCount_stats_spec:
  "outlierCount (stats_spec th ts) =
     int (length (computeRates_spec ts)) - int (length (filtered_spec th (computeRates_spec ts)))"
  by (simp add: stats_spec_def Let_def zero_stats_def summary_spec_def)

lemma computeRates_spec_strictly_increasing:
  assumes "sorted_wrt (<) ts"
  shows "computeRates_spec ts = map (\<lambda>i. 1 / (ts ! i - ts ! (i - 1))) [1..<length ts]"
proof -
  have "sorted ts" using assms by (simp add: strict_sorted_imp_sorted)
  then have s: "sort ts = ts" by (simp add: sort_key_id_if_sorted)
  have pos: "0 < ts ! i - ts ! (i - 1)" if "i \<in> set [1..<length ts]" for i
    using that sorted_wrt_nth_less [OF assms, of "i - 1" i] by simp
  then have "filter (\<lambda>delta. delta > 0) (map (\<lambda>i. ts ! i - ts ! (i - 1)) [1..<length ts])
        = map (\<lambda>i. ts ! i - ts ! (i - 1)) [1..<length ts]"
    by (simp add: filter_id_conv)
  then show ?thesis by (simp add: computeRates_spec_def s Let_def o_def)
qed

lemma sort_mset_eq: "mset ts1 = mset ts2 \<Longrightarrow> sort ts1 = sort ts2" for ts1 :: "real list"
proof -
  assume a: "mset ts1 = mset ts2"
  have "sort ts1 = sorted_list_of_multiset (mset ts1)"
    by (simp only: sorted_list_of_multiset_mset)
  also have "\<dots> = sorted_list_of_multiset (mset ts2)" by (simp only: a)
  also have "\<dots> = sort ts2" by (simp only: sorted_list_of_multiset_mset)
  finally show ?thesis .
qed

lemma computeRates_spec_mset:
  "mset ts1 = mset ts2 \<Longrightarrow> computeRates_spec ts1 = computeRates_spec ts2"
  unfolding computeRates_spec_def by (simp only: sort_mset_eq [of ts1 ts2])

lemma stats_spec_mset: "mset ts1 = mset ts2 \<Longrightarrow> stats_spec th ts1 = stats_spec th ts2"
proof -
  assume a: "mset ts1 = mset ts2"
  have l: "length ts1 = length ts2" using a by (rule mset_eq_length)
  show ?thesis
    unfolding stats_spec_def by (simp only: computeRates_spec_mset [OF a] l)
qed

section \<open>Rates from timestamps\<close>

text \<open>
  Claim C1. \<^verbatim>\<open>computeRates\<close> is the reference definition: for every collection of
  timestamps the loop returns, and returns the rates \<open>1 / delta\<close> of the positive deltas
  \<open>delta = t[i] - t[i-1]\<close> of the ascending sort \<open>t\<close>, in timestamp order; the field
  \<open>frequencies\<close> of \<^verbatim>\<open>calculateFrequencyStats\<close> holds these rates. For a strictly
  increasing sequence of \<open>N \<ge> 2\<close> timestamps there are exactly \<open>N - 1\<close> rates, the
  \<open>i\<close>-th being the reciprocal of the \<open>i\<close>-th delta.
\<close>

theorem computeRates_refines_spec:
  "computeRates timestamps = Some (computeRates_spec timestamps) \<and>
   map_option frequencies (calculateFrequencyStats threshold timestamps)
     = Some (computeRates_spec timestamps) \<and>
   (sorted_wrt (<) timestamps \<and> 2 \<le> length timestamps \<longrightarrow>
      (\<exists>rates. computeRates timestamps = Some rates \<and>
         length rates = length timestamps - 1 \<and>
         (\<forall>i < length timestamps - 1.
            rates ! i = 1 / (timestamps ! (i + 1) - timestamps ! i))))"
proof (intro conjI impI)
  show "computeRates timestamps = Some (computeRates_spec timestamps)"
    by (rule computeRates_eq)
  show "map_option frequencies (calculateFrequencyStats threshold timestamps)
     = Some (computeRates_spec timestamps)"
    by (simp add: calculateFrequencyStats_eq frequencies_stats_spec)
  assume a: "sorted_wrt (<) timestamps \<and> 2 \<le> length timestamps"
  then have eq: "computeRates_spec timestamps
      = map (\<lambda>i. 1 / (timestamps ! i - timestamps ! (i - 1))) [1..<length timestamps]"
    by (simp add: computeRates_spec_strictly_increasing)
  show "\<exists>rates. computeRates timestamps = Some rates \<and>
         length rates = length timestamps - 1 \<and>
         (\<forall>i < length timestamps - 1.
            rates ! i = 1 / (timestamps ! (i + 1) - timestamps ! i))"
    by (rule exI [of _ "computeRates_spec timestamps"]) (simp add: computeRates_eq eq)
qed

theorem computeRates_refines_spec_witness:
  "sorted_wrt (<) [0, 1, 3 :: real] \<and> 2 \<le> length [0, 1, 3 :: real] \<and>
   (\<exists>rates. computeRates [0, 1, 3] = Some rates \<and> length rates = 2 \<and>
      rates ! 0 = 1 \<and> rates ! 1 = 1 / 2)"
  using computeRates_refines_spec [of "[0, 1, 3]" 2]
  by (auto simp: nth_Cons' numeral_2_eq_2 less_Suc_eq)

section \<open>Filtering keeps a subsequence\<close>

text \<open>
  Claim C9. For every rate sequence and threshold \<^verbatim>\<open>removeOutliers\<close> returns a
  subsequence of its input: elements are removed, never added or reordered. The same
  holds between the fields \<open>filteredFrequencies\<close> and \<open>frequencies\<close> of every result
  of \<^verbatim>\<open>calculateFrequencyStats\<close>.
\<close>

theorem removeOutliers_subsequence:
  "(\<exists>filtered. removeOutliers rates threshold = Some filtered \<and> subseq filtered rates) \<and>
   (\<exists>r. calculateFrequencyStats threshold timestamps = Some r \<and>
      subseq (filteredFrequencies r) (frequencies r))"
  by (simp add: removeOutliers_total calculateFrequencyStats_eq frequencies_stats_spec
        filteredFrequencies_stats_spec filtered_spec_def filterOutliers_spec_def)

section \<open>Statistics do not depend on the order of the timestamps\<close>

text \<open>
  Claim C10. Two collections of timestamps that are permutations of each other give the
  same result of \<^verbatim>\<open>calculateFrequencyStats\<close>, that is the same rates, filtered rates,
  outlier count, mean, median, standard deviation, minimum and maximum.
\<close>

theorem statistics_permutation_invariant:
  "mset timestamps1 = mset timestamps2 \<Longrightarrow>
     (\<exists>r. calculateFrequencyStats threshold timestamps1 = Some r \<and>
          calculateFrequencyStats threshold timestamps2 = Some r)"
  by (simp only: calculateFrequencyStats_eq stats_spec_mset [of timestamps1 timestamps2]) simp

theorem statistics_permutation_invariant_witness:
  "mset [3, 0, 1 :: real] = mset [0, 1, 3] \<and>
   (\<exists>r. calculateFrequencyStats 2 [3, 0, 1] = Some r \<and>
        calculateFrequencyStats 2 [0, 1, 3] = Some r)"
proof -
  have h: "mset [3, 0, 1 :: real] = mset [0, 1, 3]" by simp
  show ?thesis using h statistics_permutation_invariant [OF h, of 2] by simp
qed

section \<open>Outlier removal computes the reference filter\<close>

text \<open>The rates 1, 1, 1, 1, 100 and timestamps that produce them.\<close>

lemma example_mean: "population_mean [1, 1, 1, 1, 100] = 104 / 5"
  by (simp add: population_mean_def)

lemma example_variance: "population_variance [1, 1, 1, 1, 100] = (198 / 5) ^ 2"
  by (simp add: population_variance_def example_mean power2_eq_square)

lemma example_stdDev: "population_stdDev [1, 1, 1, 1, 100] = 198 / 5"
  unfolding population_stdDev_def example_variance by (rule real_sqrt_unique) simp_all

lemma example_filter:
  "filterOutliers_spec [1, 1, 1, 1, 100] th =
     (if th < 1 / 2 then [] else if th < 2 then [1, 1, 1, 1] else [1, 1, 1, 1, 100])"
  by (simp add: filterOutliers_spec_def example_mean example_stdDev)

lemma example_rates: "computeRates_spec [0, 1, 2, 3, 4, 401 / 100] = [1, 1, 1, 1, 100]"
  by (simp add: computeRates_spec_strictly_increasing nth_Cons')

lemma small_rates: "computeRates_spec [0, 1, 3] = [1, 1 / 2]"
  by (simp add: computeRates_spec_strictly_increasing nth_Cons')

text \<open>Double precision rounding on concrete numbers.\<close>

lemma two_powr_of_int: "(2::real) powr (of_int e) = 2 powi e"
  by (rule powr_real_of_int') simp_all

lemma floor_log2_eq:
  assumes "2 powi e \<le> \<bar>x\<bar>" and "\<bar>x\<bar> < 2 powi (e + 1)"
  shows "\<lfloor>log 2 \<bar>x\<bar>\<rfloor> = e"
proof -
  have "(0::real) < 2 powi e" by simp
  then have pos: "0 < \<bar>x\<bar>" using assms(1) by linarith
  have "2 powr (of_int e) \<le> \<bar>x\<bar>" using assms(1) by (simp only: two_powr_of_int)
  then have lo: "of_int e \<le> log 2 \<bar>x\<bar>"
    using pos by (simp add: le_log_iff)
  have "\<bar>x\<bar> < 2 powr (of_int (e + 1))" using assms(2) by (simp only: two_powr_of_int)
  then have "log 2 \<bar>x\<bar> < of_int (e + 1)"
    using pos by (simp add: log_less_iff)
  then have hi: "log 2 \<bar>x\<bar> < of_int e + 1" by simp
  show ?thesis using lo hi by linarith
qed

lemma double_round_eval:
  assumes "2 powi e \<le> \<bar>x\<bar>" and "\<bar>x\<bar> < 2 powi (e + 1)" and "- 1022 \<le> e"
  shows "double_round x = of_int (round_half_even (x / 2 powi (e - 52))) * 2 powi (e - 52)"
proof -
  have "(0::real) < 2 powi e" by simp
  then have "0 < \<bar>x\<bar>" using assms(1) by linarith
  then have "x \<noteq> 0" by auto
  moreover have "double_ulp x = 2 powi (e - 52)"
    using assms(3) by (simp add: double_ulp_def floor_log2_eq [OF assms(1,2)])
  ultimately show ?thesis by (simp add: double_round_def)
qed

lemma double_example:
  "removeOutliers_fl double_arithmetic [one_tenth, one_tenth, one_tenth] (1 / 2) = []"
proof -
  let ?d = one_tenth
  let ?S = "5404319552844596 / 18014398509481984 :: real"
  let ?M = "7205759403792795 / 72057594037927936 :: real"
  let ?q = "1 / 5192296858534827628530496329220096 :: real"
  have sel: "fl double_arithmetic = double_round"
    "pow2 double_arithmetic = (\<lambda>x. double_round (x ^ 2))"
    "sqrt_of double_arithmetic = (\<lambda>x. double_round (sqrt x))"
    by (simp_all add: double_arithmetic_def)
  have a1: "double_round (0 + ?d) = ?d"
    unfolding one_tenth_def
    by (subst double_round_eval [where e = "-4"]) (simp_all add: round_half_even_def power_int_minus)
  have a2: "double_round (?d + ?d) = 2 * ?d"
    unfolding one_tenth_def
    by (subst double_round_eval [where e = "-3"]) (simp_all add: round_half_even_def power_int_minus)
  have a3: "double_round (2 * ?d + ?d) = ?S"
    unfolding one_tenth_def
    by (subst double_round_eval [where e = "-2"]) (simp_all add: round_half_even_def power_int_minus)
  have sum: "foldl (\<lambda>acc freq. double_round (acc + freq)) 0 [?d, ?d, ?d] = ?S"
    by (simp only: foldl_Cons foldl_Nil a1 a2 a3)
  have len: "real (length [?d, ?d, ?d]) = 3" by simp
  have mean: "double_round (?S / 3) = ?M"
    by (subst double_round_eval [where e = "-4"]) (simp_all add: round_half_even_def power_int_minus)
  have dev: "double_round (?d - ?M) = - (1 / 72057594037927936)"
    unfolding one_tenth_def
    by (subst double_round_eval [where e = "-56"]) (simp_all add: round_half_even_def power_int_minus)
  have sq: "double_round ((- (1 / 72057594037927936)) ^ 2) = ?q"
    by (subst double_round_eval [where e = "-112"])
      (simp_all add: round_half_even_def power_int_minus power2_eq_square)
  have b1: "double_round (0 + ?q) = ?q"
    by (subst double_round_eval [where e = "-112"]) (simp_all add: round_half_even_def power_int_minus)
  have b2: "double_round (?q + ?q) = 2 * ?q"
    by (subst double_round_eval [where e = "-111"]) (simp_all add: round_half_even_def power_int_minus)
  have b3: "double_round (2 * ?q + ?q) = 3 * ?q"
    by (subst double_round_eval [where e = "-111"]) (simp_all add: round_half_even_def power_int_minus)
  have sumsq: "foldl (\<lambda>acc freq. double_round (acc + double_round (double_round (freq - ?M) ^ 2))) 0
        [?d, ?d, ?d] = 3 * ?q"
    by (simp only: foldl_Cons foldl_Nil dev sq b1 b2 b3)
  have var: "double_round (3 * ?q / 3) = ?q"
    by (subst double_round_eval [where e = "-112"]) (simp_all add: round_half_even_def power_int_minus)
  have root: "sqrt ?q = 1 / 72057594037927936"
    by (rule real_sqrt_unique) (simp_all add: power2_eq_square)
  have sd: "double_round (sqrt ?q) = 1 / 72057594037927936"
    unfolding root
    by (subst double_round_eval [where e = "-56"]) (simp_all add: round_half_even_def power_int_minus)
  have bound: "double_round (1 / 2 * (1 / 72057594037927936)) = 1 / 144115188075855872"
    by (subst double_round_eval [where e = "-57"]) (simp_all add: round_half_even_def power_int_minus)
  have nonneg: "\<not> ?q < 0" by simp
  show ?thesis
    unfolding removeOutliers_fl_def Let_def sel
    by (simp only: sum len mean sumsq var sd bound dev nonneg if_False option.case)
      (simp add: dev)
qed

lemma foldl_rounded_sum:
  "foldl (\<lambda>acc x. fl ar (acc + f x)) 0 xs = rounded_sum ar (map f xs)"
  by (induction xs rule: rev_induct) (simp_all add: rounded_sum_def rev_map)

lemma reduce_rounded_sum:
  "foldl (\<lambda>acc freq. fl ar (acc + freq)) 0 xs = rounded_sum ar xs"
  using foldl_rounded_sum [of ar "\<lambda>x. x" xs] by simp

lemma removeOutliers_fl_long:
  assumes "3 \<le> length rates"
  shows "removeOutliers_fl ar rates threshold = filterOutliers_rounded ar rates threshold"
proof -
  have m: "fl ar (foldl (\<lambda>acc freq. fl ar (acc + freq)) 0 rates / real (length rates))
      = rounded_mean ar rates"
    by (simp add: reduce_rounded_sum rounded_mean_def)
  have v: "fl ar (foldl (\<lambda>acc freq. fl ar (acc + pow2 ar (fl ar (freq - rounded_mean ar rates))))
             0 rates / real (length rates)) = rounded_variance ar rates"
    using foldl_rounded_sum [of ar "\<lambda>x. pow2 ar (fl ar (x - rounded_mean ar rates))" rates]
    by (simp add: rounded_variance_def)
  show ?thesis
    unfolding removeOutliers_fl_def Let_def m v
    using assms
    by (auto simp: filterOutliers_rounded_def rounded_stdDev_def not_less intro!: filter_cong)
qed

lemma rounded_sum_exact: "rounded_sum exact_arithmetic xs = sum_list xs"
proof -
  have "rounded_sum_backwards exact_arithmetic ys = sum_list ys" for ys
    by (induction ys) (simp_all add: exact_arithmetic_def)
  then show ?thesis by (simp add: rounded_sum_def)
qed

lemma rounded_mean_exact: "rounded_mean exact_arithmetic xs = population_mean xs"
  by (simp add: rounded_mean_def rounded_sum_exact population_mean_def)
    (simp add: exact_arithmetic_def)

lemma rounded_variance_exact: "rounded_variance exact_arithmetic xs = population_variance xs"
  by (simp add: rounded_variance_def rounded_sum_exact rounded_mean_exact population_variance_def)
    (simp add: exact_arithmetic_def)

lemma filterOutliers_rounded_exact:
  "filterOutliers_rounded exact_arithmetic rates threshold = filterOutliers_spec rates threshold"
  by (simp add: filterOutliers_rounded_def filterOutliers_spec_def rounded_mean_exact
        rounded_variance_exact rounded_stdDev_def population_stdDev_def
        population_variance_nonneg)
    (simp add: exact_arithmetic_def)

lemma removeOutliers_exact_instance:
  "removeOutliers rates threshold = Some (removeOutliers_fl exact_arithmetic rates threshold)"
proof (cases "length rates < 3")
  case True
  then show ?thesis by (simp add: removeOutliers_short removeOutliers_fl_def)
next
  case False
  then have "3 \<le> length rates" by simp
  then show ?thesis
    by (simp add: removeOutliers_long removeOutliers_fl_long filterOutliers_rounded_exact)
qed

lemma exact_example:
  "filterOutliers_spec [one_tenth, one_tenth, one_tenth] (1 / 2)
     = [one_tenth, one_tenth, one_tenth]"
  by (simp add: filterOutliers_spec_def population_mean_def population_stdDev_def
        population_variance_def)

text \<open>
  Claim C2 says that \<^verbatim>\<open>removeOutliers\<close> keeps exactly the rates whose deviation from the
  population mean is at most the threshold times the population standard deviation. The
  code computes the mean and the deviations in double precision. For three rates equal to
  the double nearest to 0.1 the rounded sum is 0.30000000000000004 and the rounded mean
  lies one unit in the last place above the rates: every rate then deviates by
  2 to the power -56 from the computed mean, the computed standard deviation is the same
  2 to the power -56, and at the threshold 0.5 every rate is removed, while each of them has the
  deviation 0 from the population mean and meets the bound of the claim.
\<close>

theorem removeOutliers_exact_filter_counterexample:
  "removeOutliers_fl double_arithmetic [one_tenth, one_tenth, one_tenth] (1 / 2) = [] \<and>
   filterOutliers_spec [one_tenth, one_tenth, one_tenth] (1 / 2)
     = [one_tenth, one_tenth, one_tenth]"
  by (simp only: double_example exact_example)

text \<open>
  Claim C2, amended. For every rate sequence of at least 3 rates, every threshold and
  every arithmetic of the engine, \<^verbatim>\<open>removeOutliers\<close> keeps exactly the rates whose
  computed deviation from the computed mean is at most the computed product of the
  threshold and the computed standard deviation, where mean and standard deviation are
  computed over the whole input, dividing by the number of rates, with sums taken in
  sequence order, and no rate is kept when the computed variance is negative. With exact
  arithmetic this is the filter by the population mean and the population standard
  deviation. The outlier count of line 112 is the number of rates minus the number of
  kept rates.
\<close>

theorem removeOutliers_refines_rounded_spec:
  "3 \<le> length rates \<Longrightarrow>
     removeOutliers_fl ar rates threshold = filterOutliers_rounded ar rates threshold \<and>
     filterOutliers_rounded exact_arithmetic rates threshold
       = filterOutliers_spec rates threshold \<and>
     removeOutliers rates threshold
       = Some (removeOutliers_fl exact_arithmetic rates threshold) \<and>
     filter_and_count ar rates threshold =
       (filterOutliers_rounded ar rates threshold,
        int (length rates) - int (length (filterOutliers_rounded ar rates threshold)))"
  by (simp add: removeOutliers_fl_long filterOutliers_rounded_exact
        removeOutliers_exact_instance [symmetric] removeOutliers_long filter_and_count_def
        Let_def)

theorem removeOutliers_refines_rounded_spec_witness:
  "3 \<le> length [one_tenth, one_tenth, one_tenth] \<and>
   filterOutliers_rounded double_arithmetic [one_tenth, one_tenth, one_tenth] (1 / 2) = [] \<and>
   filter_and_count double_arithmetic [one_tenth, one_tenth, one_tenth] (1 / 2) = ([], 3)"
proof -
  have h: "3 \<le> length [one_tenth, one_tenth, one_tenth]" by simp
  show ?thesis
    using h removeOutliers_refines_rounded_spec [OF h, of double_arithmetic "1 / 2"]
    by (simp add: double_example)
qed

text \<open>
  Claim C6. For every rate sequence of fewer than 3 rates and every threshold,
  \<^verbatim>\<open>removeOutliers\<close> returns its input, and \<^verbatim>\<open>calculateFrequencyStats\<close> then reports
  the rates themselves as filtered rates and an outlier count of zero.
\<close>

theorem removeOutliers_fewer_than_three:
  "length rates < 3 \<Longrightarrow>
     removeOutliers rates threshold = Some rates \<and>
     (\<forall>timestamps. computeRates timestamps = Some rates \<longrightarrow>
        (\<exists>r. calculateFrequencyStats threshold timestamps = Some r \<and>
           filteredFrequencies r = rates \<and> outlierCount r = 0))"
proof (intro conjI allI impI)
  assume a: "length rates < 3"
  show "removeOutliers rates threshold = Some rates"
    using a by (rule removeOutliers_short)
  fix timestamps
  assume "computeRates timestamps = Some rates"
  then have r: "computeRates_spec timestamps = rates" by (simp add: computeRates_eq)
  have f: "filtered_spec threshold rates = rates"
    using a by (simp add: filtered_spec_def)
  show "\<exists>r. calculateFrequencyStats threshold timestamps = Some r \<and>
           filteredFrequencies r = rates \<and> outlierCount r = 0"
    by (simp add: calculateFrequencyStats_eq filteredFrequencies_stats_spec
          outlierCount_stats_spec r f)
qed

theorem removeOutliers_fewer_than_three_witness:
  "length [1, 1 / 2 :: real] < 3 \<and>
   removeOutliers [1, 1 / 2] 2 = Some [1, 1 / 2] \<and>
   computeRates [0, 1, 3] = Some [1, 1 / 2] \<and>
   (\<exists>r. calculateFrequencyStats 2 [0, 1, 3] = Some r \<and>
      filteredFrequencies r = [1, 1 / 2] \<and> outlierCount r = 0)"
proof -
  have h: "length [1, 1 / 2 :: real] < 3" by simp
  have c: "computeRates [0, 1, 3] = Some [1, 1 / 2]"
    by (simp add: computeRates_eq small_rates)
  show ?thesis
    using h c removeOutliers_fewer_than_three [OF h, of 2] by simp
qed

text \<open>
  Claim C3 says that for the rates 1, 1, 1, 1, 100 and the threshold 2 the value 100 is
  removed. The mean is 20.8 and the population standard deviation is 39.6, so the
  deviation 79.2 of the value 100 equals twice the standard deviation; the filter keeps
  a rate whose deviation equals the bound, and the value 100 stays.
\<close>

theorem removeOutliers_boundary_counterexample:
  "removeOutliers [1, 1, 1, 1, 100] 2 = Some [1, 1, 1, 1, 100] \<and>
   removeOutliers [1, 1, 1, 1, 100] 2 \<noteq> Some [1, 1, 1, 1]"
  by (simp add: removeOutliers_total example_filter)

text \<open>
  Claim C3, amended. For the rates 1, 1, 1, 1, 100 and the threshold 2,
  \<^verbatim>\<open>removeOutliers\<close> keeps every rate, and the outlier count that
  \<^verbatim>\<open>calculateFrequencyStats\<close> reports for timestamps with these rates is 0. The value
  100 alone is removed, leaving 1, 1, 1, 1 and the outlier count 1, for every threshold
  from 0.5 up to but excluding 2.
\<close>

theorem removeOutliers_boundary_example:
  "removeOutliers [1, 1, 1, 1, 100] 2 = Some [1, 1, 1, 1, 100] \<and>
   (\<forall>timestamps. computeRates timestamps = Some [1, 1, 1, 1, 100] \<longrightarrow>
      (\<exists>r. calculateFrequencyStats 2 timestamps = Some r \<and>
         filteredFrequencies r = [1, 1, 1, 1, 100] \<and> outlierCount r = 0)) \<and>
   (1 / 2 \<le> threshold \<and> threshold < 2 \<longrightarrow>
      removeOutliers [1, 1, 1, 1, 100] threshold = Some [1, 1, 1, 1] \<and>
      (\<forall>timestamps. computeRates timestamps = Some [1, 1, 1, 1, 100] \<longrightarrow>
         (\<exists>r. calculateFrequencyStats threshold timestamps = Some r \<and>
            filteredFrequencies r = [1, 1, 1, 1] \<and> outlierCount r = 1)))"
  by (simp add: removeOutliers_total calculateFrequencyStats_eq computeRates_eq
        filteredFrequencies_stats_spec outlierCount_stats_spec filtered_spec_def
        example_filter)

theorem removeOutliers_boundary_example_witness:
  "1 / 2 \<le> (1 :: real) \<and> (1 :: real) < 2 \<and>
   computeRates [0, 1, 2, 3, 4, 401 / 100] = Some [1, 1, 1, 1, 100] \<and>
   removeOutliers [1, 1, 1, 1, 100] 1 = Some [1, 1, 1, 1] \<and>
   (\<exists>r. calculateFrequencyStats 2 [0, 1, 2, 3, 4, 401 / 100] = Some r \<and>
      filteredFrequencies r = [1, 1, 1, 1, 100] \<and> outlierCount r = 0) \<and>
   (\<exists>r. calculateFrequencyStats 1 [0, 1, 2, 3, 4, 401 / 100] = Some r \<and>
      filteredFrequencies r = [1, 1, 1, 1] \<and> outlierCount r = 1)"
proof -
  have c: "computeRates [0, 1, 2, 3, 4, 401 / 100] = Some [1, 1, 1, 1, 100]"
    by (simp add: computeRates_eq example_rates)
  show ?thesis
    using c removeOutliers_boundary_example [of 1] by auto
qed

section \<open>The summary of the filtered rates\<close>

lemma summarize_total:
  "summarize n raw filtered outliers =
     Some (if filtered = [] then zero_stats n raw outliers
           else summary_spec n raw filtered outliers)"
  by (cases "filtered = []") (simp_all add: summarize_empty summarize_nonempty)

lemma computeRates_spec_no_positive_delta:
  assumes "\<forall>i. 0 < i \<and> i < length ts \<longrightarrow> sort ts ! i - sort ts ! (i - 1) \<le> 0"
  shows "computeRates_spec ts = []"
proof -
  have "filter (\<lambda>delta. delta > 0) (map (\<lambda>i. sort ts ! i - sort ts ! (i - 1)) [1..<length ts]) = []"
    using assms by (auto simp: filter_empty_conv not_less)
  then show ?thesis by (simp add: computeRates_spec_def)
qed

lemma filtered_spec_Nil: "filtered_spec th [] = []"
  by (simp add: filtered_spec_def)

lemma stats_spec_zero:
  "filteredFrequencies (stats_spec th ts) = [] \<Longrightarrow>
     stats_spec th ts = zero_stats (length ts) (computeRates_spec ts)
       (int (length (computeRates_spec ts)))"
  by (simp add: stats_spec_def Let_def zero_stats_def summary_spec_def split: if_splits)

text \<open>
  Claim C4. For every non-empty sequence of filtered rates \<^verbatim>\<open>summarize\<close> returns their
  arithmetic mean, the median of their ascending sort (the average of the two middle
  values for an even count, the middle value for an odd count), their population
  standard deviation, and their minimum and maximum. For the rates 2, 4, 6 the mean is 4,
  the median 4, the minimum 2 and the maximum 6.
\<close>

theorem summarize_refines_spec:
  "(filtered \<noteq> [] \<longrightarrow>
      summarize n raw filtered outliers = Some (summary_spec n raw filtered outliers)) \<and>
   (\<exists>r. summarize n raw [2, 4, 6] outliers = Some r \<and>
      averageFrequency r = 4 \<and> medianFrequency r = 4 \<and>
      minFrequency r = 2 \<and> maxFrequency r = 6)"
  by (simp add: summarize_nonempty summary_spec_def population_mean_def median_spec_def)

theorem summarize_refines_spec_witness:
  "[3, 1 :: real] \<noteq> [] \<and>
   summarize 3 [3, 1] [3, 1] 0 =
     Some \<lparr>messageCount = 3, frequencies = [3, 1], averageFrequency = 2,
           medianFrequency = 2, stdDeviation = 1, minFrequency = 1, maxFrequency = 3,
           filteredFrequencies = [3, 1], outlierCount = 0\<rparr>"
  using summarize_refines_spec [of "[3, 1]" 3 "[3, 1]" 0]
  by (simp add: summary_spec_def population_mean_def median_spec_def population_stdDev_def
        population_variance_def)

text \<open>
  Claim C5. \<^verbatim>\<open>calculateFrequencyStats\<close> returns a result for every threshold and every
  collection of timestamps: no array is read outside its bounds, no divisor is zero and no
  square root is taken of a negative number. Whenever the filtered rates of the result are
  empty, in particular for fewer than 2 timestamps and when no delta of the sorted
  timestamps is positive, the mean, median, minimum, maximum and standard deviation are 0.
  The same holds for \<^verbatim>\<open>summarize\<close> on its own, and the rate computation and the outlier
  removal return for every input as well.
\<close>

theorem statistics_total_zero_fallback:
  "(\<exists>r. calculateFrequencyStats threshold timestamps = Some r \<and>
      (filteredFrequencies r = [] \<longrightarrow>
         averageFrequency r = 0 \<and> medianFrequency r = 0 \<and> minFrequency r = 0 \<and>
         maxFrequency r = 0 \<and> stdDeviation r = 0) \<and>
      (length timestamps < 2 \<longrightarrow> filteredFrequencies r = []) \<and>
      ((\<forall>i. 0 < i \<and> i < length timestamps \<longrightarrow>
           sort timestamps ! i - sort timestamps ! (i - 1) \<le> 0) \<longrightarrow>
         filteredFrequencies r = [])) \<and>
   (\<exists>r. summarize n raw filtered outliers = Some r \<and>
      (filtered = [] \<longrightarrow>
         averageFrequency r = 0 \<and> medianFrequency r = 0 \<and> minFrequency r = 0 \<and>
         maxFrequency r = 0 \<and> stdDeviation r = 0)) \<and>
   (\<exists>rates. computeRates timestamps = Some rates) \<and>
   (\<exists>kept. removeOutliers raw threshold = Some kept)"
proof (intro conjI)
  show "\<exists>r. calculateFrequencyStats threshold timestamps = Some r \<and>
      (filteredFrequencies r = [] \<longrightarrow>
         averageFrequency r = 0 \<and> medianFrequency r = 0 \<and> minFrequency r = 0 \<and>
         maxFrequency r = 0 \<and> stdDeviation r = 0) \<and>
      (length timestamps < 2 \<longrightarrow> filteredFrequencies r = []) \<and>
      ((\<forall>i. 0 < i \<and> i < length timestamps \<longrightarrow>
           sort timestamps ! i - sort timestamps ! (i - 1) \<le> 0) \<longrightarrow>
         filteredFrequencies r = [])"
  proof (intro exI conjI impI)
    show "calculateFrequencyStats threshold timestamps = Some (stats_spec threshold timestamps)"
      by (rule calculateFrequencyStats_eq)
    assume "filteredFrequencies (stats_spec threshold timestamps) = []"
    then have z: "stats_spec threshold timestamps =
        zero_stats (length timestamps) (computeRates_spec timestamps)
          (int (length (computeRates_spec timestamps)))"
      by (rule stats_spec_zero)
    show "averageFrequency (stats_spec threshold timestamps) = 0"
      and "medianFrequency (stats_spec threshold timestamps) = 0"
      and "minFrequency (stats_spec threshold timestamps) = 0"
      and "maxFrequency (stats_spec threshold timestamps) = 0"
      and "stdDeviation (stats_spec threshold timestamps) = 0"
      by (simp_all add: z zero_stats_def)
  next
    assume "length timestamps < 2"
    then show "filteredFrequencies (stats_spec threshold timestamps) = []"
      by (simp add: filteredFrequencies_stats_spec computeRates_spec_short filtered_spec_Nil)
  next
    assume "\<forall>i. 0 < i \<and> i < length timestamps \<longrightarrow>
           sort timestamps ! i - sort timestamps ! (i - 1) \<le> 0"
    then show "filteredFrequencies (stats_spec threshold timestamps) = []"
      by (simp add: filteredFrequencies_stats_spec computeRates_spec_no_positive_delta
            filtered_spec_Nil)
  qed
  show "\<exists>r. summarize n raw filtered outliers = Some r \<and>
      (filtered = [] \<longrightarrow>
         averageFrequency r = 0 \<and> medianFrequency r = 0 \<and> minFrequency r = 0 \<and>
         maxFrequency r = 0 \<and> stdDeviation r = 0)"
    by (simp add: summarize_total zero_stats_def)
  show "\<exists>rates. computeRates timestamps = Some rates"
    by (simp add: computeRates_eq)
  show "\<exists>kept. removeOutliers raw threshold = Some kept"
    by (simp add: removeOutliers_total)
qed

theorem statistics_total_zero_fallback_witness:
  "length [3 :: real] < 2 \<and>
   sort [3, 3 :: real] ! 1 - sort [3, 3 :: real] ! 0 \<le> 0 \<and>
   (\<exists>r. calculateFrequencyStats 2 [3] = Some r \<and> filteredFrequencies r = [] \<and>
      averageFrequency r = 0 \<and> medianFrequency r = 0 \<and> minFrequency r = 0 \<and>
      maxFrequency r = 0 \<and> stdDeviation r = 0) \<and>
   (\<exists>r. calculateFrequencyStats 2 [3, 3] = Some r \<and> filteredFrequencies r = [] \<and>
      averageFrequency r = 0 \<and> medianFrequency r = 0 \<and> minFrequency r = 0 \<and>
      maxFrequency r = 0 \<and> stdDeviation r = 0) \<and>
   (\<exists>r. summarize 0 [] [] 0 = Some r \<and>
      averageFrequency r = 0 \<and> medianFrequency r = 0 \<and> minFrequency r = 0 \<and>
      maxFrequency r = 0 \<and> stdDeviation r = 0)"
proof -
  have h1: "length [3 :: real] < 2" by simp
  have h2: "\<forall>i. 0 < i \<and> i < length [3, 3 :: real] \<longrightarrow>
      sort [3, 3 :: real] ! i - sort [3, 3] ! (i - 1) \<le> 0"
    by (simp add: nth_Cons')
  show ?thesis
    using h1 h2 statistics_total_zero_fallback [of 2 "[3]" 0 "[]" "[]" 0]
      statistics_total_zero_fallback [of 2 "[3, 3]" 0 "[]" "[]" 0]
    by auto
qed

section \<open>Retention of timestamps\<close>

lemma set_Set_add: "set (Set_add x s) = insert x (set s)"
  by (auto simp: Set_add_def)

lemma distinct_Set_add: "distinct s \<Longrightarrow> distinct (Set_add x s)"
  by (simp add: Set_add_def)

lemma length_Set_add:
  "length (Set_add x s) = (if x \<in> set s then length s else Suc (length s))"
  by (simp add: Set_add_def)

lemma foldl_Set_add_distinct:
  "distinct (acc @ xs) \<Longrightarrow> foldl (\<lambda>s x. Set_add x s) acc xs = acc @ xs"
proof (induction xs arbitrary: acc)
  case Nil
  then show ?case by simp
next
  case (Cons x xs)
  then have "Set_add x acc = acc @ [x]" by (simp add: Set_add_def)
  moreover have "distinct ((acc @ [x]) @ xs)" using Cons.prems by simp
  ultimately show ?case using Cons.IH [of "acc @ [x]"] by simp
qed

lemma new_Set_distinct: "distinct xs \<Longrightarrow> new_Set xs = xs"
  using foldl_Set_add_distinct [of "[]" xs] by (simp add: new_Set_def)

lemma descending_distinct: "distinct xs \<Longrightarrow> distinct (Array_sort_descending xs)"
  by (simp add: Array_sort_descending_def)

lemma descending_set: "set (Array_sort_descending xs) = set xs"
  by (simp add: Array_sort_descending_def)

lemma descending_length: "length (Array_sort_descending xs) = length xs"
  by (simp add: Array_sort_descending_def)

lemma descending_take_drop:
  assumes "distinct xs"
    and "x \<in> set (take n (Array_sort_descending xs))"
    and "y \<in> set (drop n (Array_sort_descending xs))"
  shows "y < x"
proof -
  let ?ys = "Array_sort_descending xs"
  have "sorted (map uminus ?ys)" by (simp add: Array_sort_descending_def)
  then have "sorted (map uminus (take n ?ys) @ map uminus (drop n ?ys))"
    by (simp only: map_append [symmetric] append_take_drop_id)
  then have "- x \<le> - y" using assms(2,3) by (auto simp: sorted_append)
  moreover have "set (take n ?ys) \<inter> set (drop n ?ys) = {}"
    using assms(1) by (simp add: descending_distinct set_take_disj_set_drop_if_distinct)
  then have "x \<noteq> y" using assms(2,3) by auto
  ultimately show ?thesis by simp
qed

lemma new_Set_Nil: "new_Set [] = []"
  by (simp add: new_Set_def)

lemma object_get_Own: "obj name = Some v \<Longrightarrow> object_get obj name = Own v"
  by (simp add: object_get_def)

lemma object_get_Undefined:
  "obj name = None \<Longrightarrow> Object_prototype name = None \<Longrightarrow> object_get obj name = Undefined"
  by (simp add: object_get_def)

lemma object_get_Inherited:
  "obj name = None \<Longrightarrow> Object_prototype name = Some i \<Longrightarrow> object_get obj name = Inherited i"
  by (simp add: object_get_def)

lemma forEach_callback_truncates:
  assumes "updated c (message_topic m) = Some s"
    and "distinct s"
    and "length s = MAX_TIMESTAMPS_PER_TOPIC"
    and "timestamp_of rnd m \<notin> set s"
  shows "forEach_callback rnd c m =
     Inr (c\<lparr>updated := (updated c)(message_topic m \<mapsto>
            take MAX_TIMESTAMPS_PER_TOPIC (Array_sort_descending (s @ [timestamp_of rnd m]))),
          hasChanges := True,
          statsCache := cache_delete (statsCache c) (message_topic m)\<rparr>)"
proof -
  have add: "Set_add (timestamp_of rnd m) s = s @ [timestamp_of rnd m]"
    using assms(4) by (simp add: Set_add_def)
  have "distinct (take MAX_TIMESTAMPS_PER_TOPIC
          (Array_sort_descending (s @ [timestamp_of rnd m])))"
    using assms(2,4) by (simp add: descending_distinct)
  then have new: "new_Set (take MAX_TIMESTAMPS_PER_TOPIC
          (Array_sort_descending (s @ [timestamp_of rnd m])))
      = take MAX_TIMESTAMPS_PER_TOPIC (Array_sort_descending (s @ [timestamp_of rnd m]))"
    by (rule new_Set_distinct)
  have get: "object_get (updated c) (message_topic m) = Own s"
    using assms(1) by (rule object_get_Own)
  show ?thesis
    using assms(3)
    by (simp add: forEach_callback_def get assms(1) add new Set_elements_def Let_def)
qed

lemma forEach_callback_Inherited:
  assumes "updated c (message_topic m) = None"
    and "Object_prototype (message_topic m) = Some i"
  shows "forEach_callback rnd c m = Inl TypeError"
  using assms by (simp add: forEach_callback_def object_get_Inherited Let_def)

lemma object_get_upd_same: "object_get (obj(name \<mapsto> v)) name = Own v"
  by (simp add: object_get_def)

lemma forEach_callback_Undefined:
  assumes "updated c (message_topic m) = None"
    and "Object_prototype (message_topic m) = None"
  shows "forEach_callback rnd c m =
     Inr (c\<lparr>updated := (updated c)(message_topic m \<mapsto> [timestamp_of rnd m]),
            hasChanges := True\<rparr>)"
proof -
  have get: "object_get (updated c) (message_topic m) = Undefined"
    using assms by (rule object_get_Undefined)
  show ?thesis
    by (simp add: forEach_callback_def get object_get_upd_same Let_def new_Set_Nil Set_add_def
          MAX_TIMESTAMPS_PER_TOPIC_def)
qed

lemma forEach_callback_Own:
  assumes "updated c (message_topic m) = Some s"
  shows "forEach_callback rnd c m =
     Inr (if length (Set_add (timestamp_of rnd m) s) > length s then
            (if length (Set_add (timestamp_of rnd m) s) > MAX_TIMESTAMPS_PER_TOPIC then
               c\<lparr>updated := (updated c)(message_topic m \<mapsto>
                      new_Set (take MAX_TIMESTAMPS_PER_TOPIC
                        (Array_sort_descending (Set_add (timestamp_of rnd m) s)))),
                 hasChanges := True,
                 statsCache := cache_delete (statsCache c) (message_topic m)\<rparr>
             else c\<lparr>updated := (updated c)(message_topic m \<mapsto> Set_add (timestamp_of rnd m) s),
                    hasChanges := True\<rparr>)
          else c\<lparr>updated := (updated c)(message_topic m \<mapsto> Set_add (timestamp_of rnd m) s)\<rparr>)"
proof -
  have get: "object_get (updated c) (message_topic m) = Own s"
    using assms by (rule object_get_Own)
  show ?thesis
    by (simp add: forEach_callback_def get Let_def Set_elements_def)
qed

lemma forEach_callback_within_cap:
  assumes "within_cap (updated c) name" and "forEach_callback rnd c m = Inr c'"
  shows "within_cap (updated c') name"
proof (cases "updated c (message_topic m)")
  case None
  show ?thesis
  proof (cases "Object_prototype (message_topic m)")
    case (Some i)
    then show ?thesis using None assms(2) by (simp add: forEach_callback_Inherited)
  next
    case np: None
    have c': "c' = c\<lparr>updated := (updated c)(message_topic m \<mapsto> [timestamp_of rnd m]),
                     hasChanges := True\<rparr>"
      using assms(2) by (simp add: forEach_callback_Undefined [OF None np])
    show ?thesis
      using assms(1) np
      by (simp add: c' within_cap_def MAX_TIMESTAMPS_PER_TOPIC_def)
  qed
next
  case (Some s)
  note step = forEach_callback_Own [OF Some, of rnd]
  show ?thesis
  proof (cases "name = message_topic m")
    case False
    then show ?thesis
      using assms by (auto simp: step within_cap_def split: if_splits)
  next
    case True
    have wc: "Object_prototype name = None" "distinct s" "length s \<le> MAX_TIMESTAMPS_PER_TOPIC"
      using assms(1) Some True by (simp_all add: within_cap_def)
    have d1: "distinct (Set_add (timestamp_of rnd m) s)" using wc(2) by (rule distinct_Set_add)
    have "distinct (take MAX_TIMESTAMPS_PER_TOPIC
            (Array_sort_descending (Set_add (timestamp_of rnd m) s)))"
      using d1 by (simp add: descending_distinct)
    then have new: "new_Set (take MAX_TIMESTAMPS_PER_TOPIC
            (Array_sort_descending (Set_add (timestamp_of rnd m) s)))
        = take MAX_TIMESTAMPS_PER_TOPIC (Array_sort_descending (Set_add (timestamp_of rnd m) s))"
      by (rule new_Set_distinct)
    show ?thesis
      using assms(2) True wc d1
      by (auto simp: step within_cap_def new descending_distinct split: if_splits)
  qed
qed

lemma forEach_within_cap:
  "within_cap (updated c) name \<Longrightarrow> forEach rnd c ms = Inr c' \<Longrightarrow> within_cap (updated c') name"
proof (induction ms arbitrary: c)
  case Nil
  then show ?case by simp
next
  case (Cons m ms)
  then show ?case
    by (auto split: sum.splits dest: forEach_callback_within_cap)
qed

lemma onRender_within_cap:
  assumes "within_cap (fst state) name" and "onRender rnd state currentFrame = Inr state'"
  shows "within_cap (fst state') name"
proof (cases currentFrame)
  case None
  then show ?thesis using assms by (simp add: onRender_def)
next
  case (Some frame)
  show ?thesis
  proof (cases "forEach rnd \<lparr>updated = fst state, hasChanges = False, statsCache = snd state\<rparr> frame")
    case (Inl e)
    then show ?thesis using assms(2) Some by (simp add: onRender_def)
  next
    case (Inr c)
    have "within_cap (updated c) name"
      using forEach_within_cap [OF _ Inr, of name] assms(1) by simp
    then show ?thesis using assms Some Inr by (auto simp: onRender_def split: if_splits)
  qed
qed

lemma run_within_cap:
  "within_cap (fst state) name \<Longrightarrow> run rnd state frames = Inr state' \<Longrightarrow>
     within_cap (fst state') name"
proof (induction frames arbitrary: state)
  case Nil
  then show ?case by simp
next
  case (Cons f fs)
  then show ?case
    by (auto split: sum.splits dest: onRender_within_cap)
qed

lemma forEach_append:
  "forEach rnd c (xs @ ys) =
     (case forEach rnd c xs of Inl e \<Rightarrow> Inl e | Inr c' \<Rightarrow> forEach rnd c' ys)"
  by (induction xs arbitrary: c) (simp_all split: sum.splits)

lemma cache_get_deleted:
  "name \<noteq> ''__proto__'' \<Longrightarrow> cache_get (cache_delete cache name) name = None"
  by (simp add: cache_get_def cache_delete_def)

lemma not_inherited_not_proto: "Object_prototype name = None \<Longrightarrow> name \<noteq> ''__proto__''"
  by (auto simp: Object_prototype_def)

lemma double_round_1000: "double_round 1000 = 1000"
  by (subst double_round_eval [where e = 9]) (simp_all add: round_half_even_def power_int_minus)

text \<open>
  The copy of line 280 is shallow: \<^verbatim>\<open>updated\<close> shares its sets with \<^verbatim>\<open>prev\<close>, and line 292
  adds to a shared set in place, where a closure record holds sets of its own. The two
  agree on the state that the handler returns: a frame that leaves \<^verbatim>\<open>hasChanges\<close> false
  has changed nothing, so that \<^verbatim>\<open>prev\<close> is returned as it was, and after any other frame
  \<^verbatim>\<open>prev\<close> is dropped.
\<close>

lemma forEach_callback_unchanged:
  assumes "forEach_callback rnd c m = Inr c'" "\<not> hasChanges c'"
  shows "c' = c"
proof (cases "updated c (message_topic m)")
  case (Some s)
  have "(updated c)(message_topic m \<mapsto> s) = updated c"
    using Some by (simp add: fun_upd_idem)
  then show ?thesis
    using assms forEach_callback_Own [OF Some, of rnd]
    by (auto simp: Set_add_def split: if_splits)
next
  case None
  show ?thesis
  proof (cases "Object_prototype (message_topic m)")
    case (Some i)
    then show ?thesis using assms None by (simp add: forEach_callback_Inherited)
  next
    case none: None
    then show ?thesis using assms forEach_callback_Undefined [OF None none, of rnd] by auto
  qed
qed

lemma forEach_callback_hasChanges:
  "forEach_callback rnd c m = Inr c' \<Longrightarrow> hasChanges c \<Longrightarrow> hasChanges c'"
  by (auto simp: forEach_callback_def Let_def split: property.splits if_splits)

lemma forEach_hasChanges:
  "forEach rnd c frame = Inr c' \<Longrightarrow> hasChanges c \<Longrightarrow> hasChanges c'"
proof (induction frame arbitrary: c)
  case Nil
  then show ?case by simp
next
  case (Cons m frame)
  then show ?case
    by (auto split: sum.splits dest: forEach_callback_hasChanges)
qed

lemma forEach_unchanged:
  "forEach rnd c frame = Inr c' \<Longrightarrow> \<not> hasChanges c' \<Longrightarrow> c' = c"
proof (induction frame arbitrary: c)
  case Nil
  then show ?case by simp
next
  case (Cons m frame)
  from Cons.prems(1) obtain c1 where
    c1: "forEach_callback rnd c m = Inr c1" and rest: "forEach rnd c1 frame = Inr c'"
    by (auto split: sum.splits)
  have "c' = c1" using Cons.IH [OF rest Cons.prems(2)] .
  then show ?case using forEach_callback_unchanged [OF c1] Cons.prems(2) by simp
qed

text \<open>
  Claim C7. Let the callback have processed the messages of a frame up to a message \<open>m\<close>,
  let the set of the topic of \<open>m\<close> hold 1000 distinct timestamps, and let the timestamp
  computed for \<open>m\<close> not be among them. Then the callback raises \<^verbatim>\<open>hasChanges\<close>, and
  after \<open>m\<close> as the last message of the frame the handler returns timestamp sets in which
  the topic has 1000 distinct timestamps, taken from the old ones and the new one and each
  larger than every timestamp left out, and a cache without an entry for the topic. The
  topic's name is assumed not to be a member of \<^verbatim>\<open>Object.prototype\<close>; by the invariant
  below no set is ever held under such a name. A set of at most 1000 distinct timestamps
  stays so under every message that the callback accepts, and every set reached from the
  panel's initial, empty state by any sequence of frames holds at most 1000 timestamps.
\<close>

theorem retain_truncates_at_cap:
  "(forEach rnd \<lparr>updated = topicTimestamps, hasChanges = False, statsCache = cache\<rparr> before
      = Inr c \<and>
    updated c (message_topic m) = Some s \<and> distinct s \<and> length s = 1000 \<and>
    timestamp_of rnd m \<notin> set s \<and> Object_prototype (message_topic m) = None \<longrightarrow>
      (\<exists>c' s'. forEach_callback rnd c m = Inr c' \<and> hasChanges c' \<and>
         onRender rnd (topicTimestamps, cache) (Some (before @ [m]))
           = Inr (updated c', statsCache c') \<and>
         updated c' (message_topic m) = Some s' \<and> distinct s' \<and> length s' = 1000 \<and>
         set s' \<subseteq> insert (timestamp_of rnd m) (set s) \<and>
         (\<forall>x \<in> set s'. \<forall>y \<in> insert (timestamp_of rnd m) (set s) - set s'. y < x) \<and>
         cache_get (statsCache c') (message_topic m) = None)) \<and>
   (within_cap (updated c) name \<and> forEach_callback rnd c m = Inr c2 \<longrightarrow>
      within_cap (updated c2) name) \<and>
   (run rnd (Map.empty, cache0) frames = Inr state \<longrightarrow> within_cap (fst state) name)"
proof (intro conjI impI)
  assume a: "forEach rnd \<lparr>updated = topicTimestamps, hasChanges = False, statsCache = cache\<rparr>
      before = Inr c \<and>
    updated c (message_topic m) = Some s \<and> distinct s \<and> length s = 1000 \<and>
    timestamp_of rnd m \<notin> set s \<and> Object_prototype (message_topic m) = None"
  let ?t = "timestamp_of rnd m"
  let ?all = "s @ [?t]"
  let ?ys = "Array_sort_descending ?all"
  let ?s' = "take MAX_TIMESTAMPS_PER_TOPIC ?ys"
  let ?c' = "c\<lparr>updated := (updated c)(message_topic m \<mapsto> ?s'),
       hasChanges := True,
       statsCache := cache_delete (statsCache c) (message_topic m)\<rparr>"
  have len: "length s = MAX_TIMESTAMPS_PER_TOPIC"
    using a by (simp add: MAX_TIMESTAMPS_PER_TOPIC_def)
  have step: "forEach_callback rnd c m = Inr ?c'"
    using a len by (intro forEach_callback_truncates) simp_all
  have dall: "distinct ?all" using a by simp
  have d: "distinct ?s'" using dall by (simp add: descending_distinct)
  have l: "length ?s' = 1000"
    using a by (simp add: descending_length MAX_TIMESTAMPS_PER_TOPIC_def)
  have sub: "set ?s' \<subseteq> insert ?t (set s)"
    using set_take_subset [of MAX_TIMESTAMPS_PER_TOPIC ?ys] by (simp add: descending_set)
  have top: "y < x" if "x \<in> set ?s'" and "y \<in> insert ?t (set s) - set ?s'" for x y
  proof -
    have "y \<in> set ?ys" using that(2) by (simp add: descending_set)
    then have "y \<in> set (take MAX_TIMESTAMPS_PER_TOPIC ?ys) \<union> set (drop MAX_TIMESTAMPS_PER_TOPIC ?ys)"
      by (simp only: set_append [symmetric] append_take_drop_id)
    then have "y \<in> set (drop MAX_TIMESTAMPS_PER_TOPIC ?ys)" using that(2) by simp
    then show ?thesis using descending_take_drop [OF dall that(1)] by simp
  qed
  have handler: "onRender rnd (topicTimestamps, cache) (Some (before @ [m]))
      = Inr (updated ?c', statsCache ?c')"
    using a by (simp add: onRender_def forEach_append step)
  have gone: "cache_get (statsCache ?c') (message_topic m) = None"
    using a by (simp add: cache_get_deleted not_inherited_not_proto)
  show "\<exists>c' s'. forEach_callback rnd c m = Inr c' \<and> hasChanges c' \<and>
         onRender rnd (topicTimestamps, cache) (Some (before @ [m]))
           = Inr (updated c', statsCache c') \<and>
         updated c' (message_topic m) = Some s' \<and> distinct s' \<and> length s' = 1000 \<and>
         set s' \<subseteq> insert ?t (set s) \<and>
         (\<forall>x \<in> set s'. \<forall>y \<in> insert ?t (set s) - set s'. y < x) \<and>
         cache_get (statsCache c') (message_topic m) = None"
  proof (intro exI conjI ballI)
    show "forEach_callback rnd c m = Inr ?c'" by (rule step)
    show "hasChanges ?c'" by simp
    show "onRender rnd (topicTimestamps, cache) (Some (before @ [m]))
      = Inr (updated ?c', statsCache ?c')" by (rule handler)
    show "updated ?c' (message_topic m) = Some ?s'" by simp
    show "distinct ?s'" by (rule d)
    show "length ?s' = 1000" by (rule l)
    show "set ?s' \<subseteq> insert ?t (set s)" by (rule sub)
    show "cache_get (statsCache ?c') (message_topic m) = None" by (rule gone)
    fix x y
    assume "x \<in> set ?s'" and "y \<in> insert ?t (set s) - set ?s'"
    then show "y < x" by (rule top)
  qed
next
  assume "within_cap (updated c) name \<and> forEach_callback rnd c m = Inr c2"
  then show "within_cap (updated c2) name"
    using forEach_callback_within_cap by blast
next
  assume "run rnd (Map.empty, cache0) frames = Inr state"
  then show "within_cap (fst state) name"
    using run_within_cap [of "(Map.empty, cache0)" name rnd frames state]
    by (simp add: within_cap_def)
qed

theorem retain_truncates_at_cap_witness:
  "forEach double_round
      \<lparr>updated = [''/a'' \<mapsto> map real [0..<1000]], hasChanges = False,
        statsCache = \<lparr>own = Map.empty, proto = None\<rparr>\<rparr> []
     = Inr \<lparr>updated = [''/a'' \<mapsto> map real [0..<1000]], hasChanges = False,
            statsCache = \<lparr>own = Map.empty, proto = None\<rparr>\<rparr> \<and>
   distinct (map real [0..<1000]) \<and> length (map real [0..<1000]) = 1000 \<and>
   timestamp_of double_round \<lparr>message_topic = ''/a'', receiveTime = \<lparr>sec = 1000, nsec = 0\<rparr>\<rparr>
     = 1000 \<and>
   1000 \<notin> set (map real [0..<1000]) \<and>
   Object_prototype ''/a'' = None \<and>
   within_cap [''/a'' \<mapsto> map real [0..<1000]] ''/a'' \<and>
   (\<exists>topicTimestamps cache s'.
      onRender double_round
          ([''/a'' \<mapsto> map real [0..<1000]], \<lparr>own = Map.empty, proto = None\<rparr>)
          (Some [\<lparr>message_topic = ''/a'', receiveTime = \<lparr>sec = 1000, nsec = 0\<rparr>\<rparr>])
        = Inr (topicTimestamps, cache) \<and>
      topicTimestamps ''/a'' = Some s' \<and> length s' = 1000 \<and> 1000 \<in> set s' \<and>
      0 \<notin> set s' \<and> within_cap topicTimestamps ''/a'' \<and> cache_get cache ''/a'' = None)"
proof -
  let ?s = "map real [0..<1000]"
  let ?m = "\<lparr>message_topic = ''/a'', receiveTime = \<lparr>sec = 1000, nsec = 0\<rparr>\<rparr>"
  let ?T = "[''/a'' \<mapsto> ?s]"
  let ?C = "\<lparr>own = Map.empty, proto = None\<rparr> :: StatsCache"
  let ?c = "\<lparr>updated = ?T, hasChanges = False, statsCache = ?C\<rparr>"
  have z: "double_round 0 = 0" by (simp add: double_round_def)
  have t: "timestamp_of double_round ?m = 1000"
    by (simp add: timestamp_of_def double_round_1000 z)
  have h0: "forEach double_round ?c [] = Inr ?c" by simp
  have h1: "updated ?c (message_topic ?m) = Some ?s" by simp
  have h2: "distinct ?s" by (simp add: distinct_map)
  have h3: "length ?s = 1000" by simp
  have h4: "timestamp_of double_round ?m \<notin> set ?s" by (auto simp: t)
  have h4': "1000 \<notin> set ?s" using h4 unfolding t .
  have h5: "Object_prototype (message_topic ?m) = None" by (simp add: Object_prototype_def)
  have h5': "Object_prototype ''/a'' = None" using h5 by simp
  have h6: "within_cap (updated ?c) ''/a''"
    using h2 h5' by (simp add: within_cap_def MAX_TIMESTAMPS_PER_TOPIC_def)
  have h6': "within_cap ?T ''/a''" using h6 by simp
  note inst = retain_truncates_at_cap
    [where rnd = double_round and topicTimestamps = ?T and cache = ?C and before = "[]"
       and c = ?c and m = ?m and s = ?s and name = "''/a''"]
  from inst h0 h1 h2 h3 h4 h5 obtain c' s' where
    step: "forEach_callback double_round ?c ?m = Inr c'"
    and handler: "onRender double_round (?T, ?C) (Some ([] @ [?m]))
        = Inr (updated c', statsCache c')"
    and s': "updated c' (message_topic ?m) = Some s'" "length s' = 1000" "distinct s'"
      "set s' \<subseteq> insert (timestamp_of double_round ?m) (set ?s)"
      "\<forall>x \<in> set s'. \<forall>y \<in> insert (timestamp_of double_round ?m) (set ?s) - set s'. y < x"
    and gone: "cache_get (statsCache c') (message_topic ?m) = None"
    by blast
  have w: "within_cap (updated c') ''/a''"
    using inst [where ?c2.0 = c'] h6 step by blast
  have cs: "card (set ?s) = length ?s" by (rule distinct_card [OF h2])
  have "card (insert (timestamp_of double_round ?m) (set ?s)) = Suc (card (set ?s))"
    by (rule card_insert_disjoint [OF finite_set h4])
  then have card: "card (insert (timestamp_of double_round ?m) (set ?s)) = Suc 1000"
    by (simp only: cs h3)
  have "card (set s') = 1000" using s'(2,3) by (simp add: distinct_card)
  then have "card (set s') \<noteq> card (insert (timestamp_of double_round ?m) (set ?s))"
    by (simp only: card)
  then have "set s' \<noteq> insert (timestamp_of double_round ?m) (set ?s)" by auto
  then obtain y where y: "y \<in> insert (timestamp_of double_round ?m) (set ?s) - set s'"
    using s'(4) by auto
  have big_in: "(1000::real) \<in> insert (timestamp_of double_round ?m) (set ?s)" by (simp add: t)
  have nonneg: "0 \<le> y" using y by (auto simp: t)
  have zero_out: "0 \<notin> set s'"
  proof
    assume "0 \<in> set s'"
    then have "y < 0" using s'(5) y by blast
    then show False using nonneg by simp
  qed
  have big: "1000 \<in> set s'"
  proof (rule ccontr)
    assume "1000 \<notin> set s'"
    then have b: "1000 \<in> insert (timestamp_of double_round ?m) (set ?s) - set s'"
      using big_in by simp
    have "s' \<noteq> []" using s'(2) by auto
    then have "hd s' \<in> set s'" by (rule hd_in_set)
    then obtain x where x: "x \<in> set s'" ..
    then have "1000 < x" using s'(5) b by blast
    moreover have "x \<le> 1000" using x s'(4) by (auto simp: t)
    ultimately show False by simp
  qed
  have result: "\<exists>topicTimestamps cache s'.
      onRender double_round (?T, ?C) (Some [?m]) = Inr (topicTimestamps, cache) \<and>
      topicTimestamps ''/a'' = Some s' \<and> length s' = 1000 \<and> 1000 \<in> set s' \<and>
      0 \<notin> set s' \<and> within_cap topicTimestamps ''/a'' \<and> cache_get cache ''/a'' = None"
    using handler s'(1,2) big zero_out w gone by auto
  show ?thesis using h0 h2 h3 t h4' h5' h6' result by blast
qed

section \<open>The statistics cache on repeated calls\<close>

lemma numbers_map_Some: "numbers (map Some xs) = xs"
  by (induction xs) (simp_all add: numbers_def List.map_filter_simps)

lemma undefineds_map_Some: "undefineds (map Some xs) = []"
  by (induction xs) (simp_all add: undefineds_def)

lemma numbers_replicate_None: "numbers (replicate n None) = []"
  by (induction n) (simp_all add: numbers_def List.map_filter_simps)

lemma undefineds_replicate_None: "undefineds (replicate n None) = replicate n None"
  by (induction n) (simp_all add: undefineds_def)

lemma intervals_loop_elements_undefined:
  "intervals_loop_elements (replicate n None) i acc = acc"
proof (induction "replicate n (None :: real option)" i acc rule: intervals_loop_elements.induct)
  case (1 i acc)
  show ?case
  proof (cases "i < n")
    case False
    then show ?thesis by (subst intervals_loop_elements.simps) simp
  next
    case True
    have e: "element (replicate n None) (int i) = None"
      using True by (simp add: element_def)
    have m: "number_minus (element (replicate n None) (int i))
               (element (replicate n None) (int i - 1)) = None"
      by (simp add: e number_minus_def)
    have "intervals_loop_elements (replicate n None) i acc
        = intervals_loop_elements (replicate n None) (i + 1) acc"
      using True by (subst intervals_loop_elements.simps) (simp add: m)
    also have "\<dots> = acc" using "1.hyps"(1) [OF _ m] True by simp
    finally show ?thesis .
  qed
qed

lemma calculateFrequencyStats_elements_undefined:
  "calculateFrequencyStats_elements th (replicate n None) = Some (zero_stats n [] 0)"
  by (simp add: calculateFrequencyStats_elements_def Array_sort_ascending_def
        numbers_replicate_None undefineds_replicate_None intervals_loop_elements_undefined)

lemma intervals_loop_elements_numbers:
  "0 < i \<Longrightarrow> intervals_loop_elements (map Some ts) i acc =
     acc @ map (\<lambda>delta. 1 / delta)
       (filter (\<lambda>delta. delta > 0) (map (\<lambda>j. ts ! j - ts ! (j - 1)) [i..<length ts]))"
proof (induction "map Some ts" i acc rule: intervals_loop_elements.induct)
  case (1 i acc)
  show ?case
  proof (cases "i < length ts")
    case False
    then show ?thesis by (subst intervals_loop_elements.simps) simp
  next
    case True
    have a: "element (map Some ts) (int i) = Some (ts ! i)"
      using True by (simp add: element_def)
    have b: "element (map Some ts) (int i - 1) = Some (ts ! (i - 1))"
      using True "1.prems" by (simp add: element_def nat_diff_distrib')
    have m: "number_minus (element (map Some ts) (int i)) (element (map Some ts) (int i - 1))
        = Some (ts ! i - ts ! (i - 1))"
      by (simp add: a b number_minus_def)
    have up: "[i..<length ts] = i # [Suc i..<length ts]" using True by (simp add: upt_conv_Cons)
    have lt: "i < length (map Some ts)" using True by simp
    show ?thesis
    proof (cases "ts ! i - ts ! (i - 1) > 0")
      case pos: True
      have "intervals_loop_elements (map Some ts) i acc
          = intervals_loop_elements (map Some ts) (i + 1) (acc @ [1 / (ts ! i - ts ! (i - 1))])"
        using True pos by (subst intervals_loop_elements.simps) (simp add: m)
      also have "\<dots> = (acc @ [1 / (ts ! i - ts ! (i - 1))]) @ map (\<lambda>delta. 1 / delta)
         (filter (\<lambda>delta. delta > 0) (map (\<lambda>j. ts ! j - ts ! (j - 1)) [i + 1..<length ts]))"
        using "1.hyps"(2) [OF lt m pos] by simp
      finally show ?thesis using pos by (simp add: up)
    next
      case npos: False
      have "intervals_loop_elements (map Some ts) i acc
          = intervals_loop_elements (map Some ts) (i + 1) acc"
        using True npos by (subst intervals_loop_elements.simps) (simp add: m)
      also have "\<dots> = acc @ map (\<lambda>delta. 1 / delta)
         (filter (\<lambda>delta. delta > 0) (map (\<lambda>j. ts ! j - ts ! (j - 1)) [i + 1..<length ts]))"
        using "1.hyps"(3) [OF lt m npos] by simp
      finally show ?thesis using npos by (simp add: up)
    qed
  qed
qed

lemma calculateFrequencyStats_elements_numbers:
  "calculateFrequencyStats_elements th (map Some ts) = calculateFrequencyStats th ts"
proof -
  have s: "Array_sort_ascending (map Some ts) = map Some (sort ts)"
    by (simp add: Array_sort_ascending_def numbers_map_Some undefineds_map_Some)
  have l: "intervals_loop_elements (map Some (sort ts)) (Suc 0) [] = computeRates_spec ts"
    by (simp add: intervals_loop_elements_numbers computeRates_spec_def Let_def)
  show ?thesis
    by (simp add: calculateFrequencyStats_elements_def calculateFrequencyStats_def s l
          computeRates_eq Let_def)
qed

lemma getCachedStats_constructor:
  assumes "topicTimestamps ''constructor'' = None"
  shows "getCachedStats toString threshold topicTimestamps (cache, fresh) ''constructor'' =
     Some ((fresh, Stats.extend (zero_stats 1 [] 0) (FrequencyStats.fields ''constructor'')),
           cache_set cache ''constructor''
             \<lparr>stats = (fresh, Stats.extend (zero_stats 1 [] 0)
                               (FrequencyStats.fields ''constructor'')),
              lastUpdate = NaN, timestampCount = 0\<rparr>,
           fresh + 1)"
proof -
  have p: "Object_prototype ''constructor'' = Some (Function 1)"
    by (simp add: Object_prototype_def)
  have get: "object_get topicTimestamps ''constructor'' = Inherited (Function 1)"
    using assms p by (rule object_get_Inherited)
  have arr: "Array_from (Inherited (Function (Suc 0)) :: TimestampSet property) = [None]"
    by (simp add: Array_from_def)
  have mx: "Math_max_spread [None] = NaN" by (simp add: Math_max_spread_def)
  have srt: "Array_sort_default toString [None] = [None]"
    by (simp add: Array_sort_default_def numbers_def undefineds_def List.map_filter_simps)
  have body: "calculateFrequencyStats_elements threshold [None] = Some (zero_stats (Suc 0) [] 0)"
    using calculateFrequencyStats_elements_undefined [of threshold "Suc 0"] by simp
  have miss: "\<not> strict_equal x NaN" for x by (simp add: strict_equal_def)
  show ?thesis
    by (simp add: getCachedStats_def get arr mx srt body miss Let_def split: option.splits)
qed

lemma getCachedStats_other_topics:
  assumes "Object_prototype tp = None"
  shows "\<exists>r heap'.
      getCachedStats toString threshold topicTimestamps (cache, fresh) tp = Some (r, heap') \<and>
      getCachedStats toString2 threshold2 topicTimestamps heap' tp = Some (r, heap')"
proof -
  define timestamps where "timestamps = object_get topicTimestamps tp"
  define n where "n = (case timestamps of Own s \<Rightarrow> length s | _ \<Rightarrow> 0)"
  define lu where "lu = (case timestamps of Undefined \<Rightarrow> Num 0
                         | _ \<Rightarrow> Math_max_spread (Array_from timestamps))"
  have not_inh: "timestamps \<noteq> Inherited i" for i
    using assms by (auto simp: timestamps_def object_get_def split: option.splits)
  have lu: "lu \<noteq> NaN"
  proof (cases timestamps)
    case (Own s)
    then show ?thesis
      by (simp add: lu_def Math_max_spread_def Array_from_def image_iff split: option.splits)
  next
    case (Inherited i)
    then show ?thesis using not_inh by simp
  next
    case Undefined
    then show ?thesis by (simp add: lu_def)
  qed
  have refl: "strict_equal lu lu" using lu by (simp add: strict_equal_def)
  have np: "tp \<noteq> ''__proto__''" using assms by (rule not_inherited_not_proto)
  have total: "\<exists>body. calculateFrequencyStats_elements th
      (Array_sort_default toString (Array_from timestamps)) = Some body" for th toString
  proof (cases timestamps)
    case (Own s)
    have "Array_sort_default toString (Array_from (Own s)) = map Some (sort_key toString s)"
      by (simp add: Array_sort_default_def Array_from_def Set_elements_def numbers_map_Some
            undefineds_map_Some)
    then show ?thesis
      by (simp add: Own calculateFrequencyStats_elements_numbers calculateFrequencyStats_eq)
  next
    case (Inherited i)
    then show ?thesis using not_inh by simp
  next
    case Undefined
    then show ?thesis
      by (simp add: Array_sort_default_def Array_from_def numbers_def undefineds_def
            List.map_filter_simps calculateFrequencyStats_elements_def)
  qed
  have hit: "getCachedStats ts th topicTimestamps (C, k) tp = Some (stats e, (C, k))"
    if "cache_get C tp = Some e" "strict_equal (lastUpdate e) lu" "timestampCount e = n"
    for ts th C k e
    unfolding getCachedStats_def Let_def fst_conv snd_conv
    unfolding timestamps_def [symmetric]
    unfolding n_def [symmetric] lu_def [symmetric]
    using that by simp
  show ?thesis
  proof (cases "\<exists>e. cache_get cache tp = Some e \<and> strict_equal (lastUpdate e) lu \<and>
      timestampCount e = n")
    case True
    then obtain e where e: "cache_get cache tp = Some e" "strict_equal (lastUpdate e) lu"
      "timestampCount e = n" by blast
    show ?thesis using hit [OF e] by blast
  next
    case False
    then have nohit: "(case cache_get cache tp of None \<Rightarrow> None
        | Some c \<Rightarrow> if strict_equal (lastUpdate c) lu \<and> timestampCount c = n
                   then Some (stats c) else None) = None"
      by (auto split: option.splits)
    obtain body where body: "calculateFrequencyStats_elements threshold
        (Array_sort_default toString (Array_from timestamps)) = Some body"
      using total by blast
    let ?obj = "(fresh, Stats.extend body (FrequencyStats.fields tp))"
    let ?entry = "\<lparr>stats = ?obj, lastUpdate = lu, timestampCount = n\<rparr>"
    have first: "getCachedStats toString threshold topicTimestamps (cache, fresh) tp
        = Some (?obj, (cache_set cache tp ?entry, fresh + 1))"
      unfolding getCachedStats_def Let_def fst_conv snd_conv
      unfolding timestamps_def [symmetric]
      unfolding n_def [symmetric] lu_def [symmetric]
      unfolding nohit body
      by simp
    have stored: "cache_get (cache_set cache tp ?entry) tp = Some ?entry"
      using np by (simp add: cache_get_def cache_set_def)
    have second: "getCachedStats toString2 threshold2 topicTimestamps
        (cache_set cache tp ?entry, fresh + 1) tp
        = Some (stats ?entry, (cache_set cache tp ?entry, fresh + 1))"
      by (rule hit [OF stored]) (simp_all add: refl)
    show ?thesis using first second by simp
  qed
qed

text \<open>
  Claim C8 says that a second call of \<^verbatim>\<open>getCachedStats\<close> without an intervening change
  of the timestamp sets returns the cached object. For the topic name \<^verbatim>\<open>constructor\<close>
  and no timestamp set under that name, line 159 reads the function that plain objects
  inherit, \<^verbatim>\<open>Array.from\<close> of it is one undefined element, \<^verbatim>\<open>lastUpdate\<close> is
  \<^verbatim>\<open>NaN\<close>, and the entry stored under it never passes the test of line 164: the second
  call creates and stores a new object, with the address 1 where the first call returned
  the address 0. For every topic name that is not a member of \<^verbatim>\<open>Object.prototype\<close> the
  second call returns the object of the first and leaves the cache as it is (lemma
  \<open>getCachedStats_other_topics\<close>).
\<close>

theorem getCachedStats_constructor_recomputes:
  "getCachedStats toString threshold Map.empty (\<lparr>own = Map.empty, proto = None\<rparr>, 0)
       ''constructor''
     = Some ((0, Stats.extend (zero_stats 1 [] 0) (FrequencyStats.fields ''constructor'')),
         \<lparr>own = [''constructor'' \<mapsto>
                   \<lparr>stats = (0, Stats.extend (zero_stats 1 [] 0)
                                   (FrequencyStats.fields ''constructor'')),
                    lastUpdate = NaN, timestampCount = 0\<rparr>],
          proto = None\<rparr>, 1) \<and>
   getCachedStats toString threshold Map.empty
       (\<lparr>own = [''constructor'' \<mapsto>
                  \<lparr>stats = (0, Stats.extend (zero_stats 1 [] 0)
                                  (FrequencyStats.fields ''constructor'')),
                   lastUpdate = NaN, timestampCount = 0\<rparr>],
         proto = None\<rparr>, 1) ''constructor''
     = Some ((1, Stats.extend (zero_stats 1 [] 0) (FrequencyStats.fields ''constructor'')),
         \<lparr>own = [''constructor'' \<mapsto>
                   \<lparr>stats = (1, Stats.extend (zero_stats 1 [] 0)
                                   (FrequencyStats.fields ''constructor'')),
                    lastUpdate = NaN, timestampCount = 0\<rparr>],
          proto = None\<rparr>, 2)"
  by (simp add: getCachedStats_constructor cache_set_def)

end
